theory Spec2Isabelle
  imports Complex_Main "HOL-Library.Word"
begin

unbundle bit_operations_syntax

section \<open>Single-channel LoRa gateway for the Dragino GPS HAT\<close>

text \<open>
  A shallow embedding of \<^verbatim>\<open>src/home/pi/LoRa/dragino_gps_hat.cpp\<close>. The global
  variables of the translation unit are the fields of the record \<open>gw\<close>; every function
  takes the state and returns it updated. The transceiver is reached through SPI
  transfers: the byte the chip shifts out during the n-th transfer is \<open>spi_miso s n\<close>,
  an arbitrary function, so that every behaviour of the chip is covered. Calls to the
  wiringPi library are recorded, in order, in the trace \<open>io\<close>. Text written to stdout
  (\<^verbatim>\<open>printf\<close>, \<^verbatim>\<open>dumpMessage\<close>) is not modelled.
\<close>

subsection \<open>Types and constants\<close>

type_synonym byte = "8 word"
type_synonym u32 = "32 word"
type_synonym u64 = "64 word"
type_synonym i32 = "32 word"

text \<open>A \<^verbatim>\<open>char\<close> array: index to byte. Its declared size is kept beside it.\<close>

type_synonym cbuf = "nat \<Rightarrow> byte"

datatype io_event =
    WiringPiSetup
  | PinMode int bool
  | WiringPiSPISetup int int
  | DigitalWrite int bool
  | DigitalRead int int
  | Delay nat
  | SpiDataRW int byte byte

text \<open>\<open>PinMode p True\<close> is \<^verbatim>\<open>pinMode(p, OUTPUT)\<close>; \<open>DigitalWrite p True\<close> is
  \<^verbatim>\<open>digitalWrite(p, HIGH)\<close>; \<open>DigitalRead p v\<close> is \<^verbatim>\<open>digitalRead(p)\<close> returning \<open>v\<close>;
  \<open>SpiDataRW ch a b\<close> is
  \<^verbatim>\<open>wiringPiSPIDataRW(ch, spibuf, 2)\<close> with \<^verbatim>\<open>spibuf = {a, b}\<close> on entry.\<close>

definition CHANNEL :: int where "CHANNEL = 0"
definition ssPin :: int where "ssPin = 6"
definition dio0 :: int where "dio0 = 7"
definition RST :: int where "RST = 0"

definition REG_FIFO :: byte where "REG_FIFO = 0x00"
definition REG_FIFO_ADDR_PTR :: byte where "REG_FIFO_ADDR_PTR = 0x0D"
definition REG_FIFO_RX_BASE_AD :: byte where "REG_FIFO_RX_BASE_AD = 0x0F"
definition REG_RX_NB_BYTES :: byte where "REG_RX_NB_BYTES = 0x13"
definition REG_OPMODE :: byte where "REG_OPMODE = 0x01"
definition REG_FIFO_RX_CURRENT_ADDR :: byte where "REG_FIFO_RX_CURRENT_ADDR = 0x10"
definition REG_IRQ_FLAGS :: byte where "REG_IRQ_FLAGS = 0x12"
definition REG_MODEM_CONFIG :: byte where "REG_MODEM_CONFIG = 0x1D"
definition REG_MODEM_CONFIG2 :: byte where "REG_MODEM_CONFIG2 = 0x1E"
definition REG_MODEM_CONFIG3 :: byte where "REG_MODEM_CONFIG3 = 0x26"
definition REG_SYMB_TIMEOUT_LSB :: byte where "REG_SYMB_TIMEOUT_LSB = 0x1F"
definition REG_PKT_SNR_VALUE :: byte where "REG_PKT_SNR_VALUE = 0x19"
definition REG_PAYLOAD_LENGTH :: byte where "REG_PAYLOAD_LENGTH = 0x22"
definition REG_MAX_PAYLOAD_LENGTH :: byte where "REG_MAX_PAYLOAD_LENGTH = 0x23"
definition REG_HOP_PERIOD :: byte where "REG_HOP_PERIOD = 0x24"
definition REG_VERSION :: byte where "REG_VERSION = 0x42"
definition REG_LNA :: byte where "REG_LNA = 0x0C"
definition REG_FRF_MSB :: byte where "REG_FRF_MSB = 0x06"
definition REG_FRF_MID :: byte where "REG_FRF_MID = 0x07"
definition REG_FRF_LSB :: byte where "REG_FRF_LSB = 0x08"

definition SX72_MODE_RX_CONTINUOS :: byte where "SX72_MODE_RX_CONTINUOS = 0x85"
definition SX72_MODE_SLEEP :: byte where "SX72_MODE_SLEEP = 0x80"
definition PAYLOAD_LENGTH :: byte where "PAYLOAD_LENGTH = 0x40"
definition LNA_MAX_GAIN :: byte where "LNA_MAX_GAIN = 0x23"

definition PROTOCOL_VERSION :: byte where "PROTOCOL_VERSION = 1"
definition PKT_PUSH_DATA :: byte where "PKT_PUSH_DATA = 0"
definition TX_BUFF_SIZE :: nat where "TX_BUFF_SIZE = 2048"
definition STATUS_SIZE :: nat where "STATUS_SIZE = 1024"

lemmas reg_defs =
  REG_FIFO_def REG_FIFO_ADDR_PTR_def REG_FIFO_RX_BASE_AD_def REG_RX_NB_BYTES_def
  REG_OPMODE_def REG_FIFO_RX_CURRENT_ADDR_def REG_IRQ_FLAGS_def REG_MODEM_CONFIG_def
  REG_MODEM_CONFIG2_def REG_MODEM_CONFIG3_def REG_SYMB_TIMEOUT_LSB_def
  REG_PKT_SNR_VALUE_def REG_PAYLOAD_LENGTH_def REG_MAX_PAYLOAD_LENGTH_def
  REG_HOP_PERIOD_def REG_VERSION_def REG_LNA_def REG_FRF_MSB_def REG_FRF_MID_def
  REG_FRF_LSB_def SX72_MODE_RX_CONTINUOS_def SX72_MODE_SLEEP_def PAYLOAD_LENGTH_def
  LNA_MAX_GAIN_def

text \<open>
  The register addresses that \<^verbatim>\<open>setupDraginoLoRa\<close> takes from the header
  \<^verbatim>\<open>hope_rfm96.h\<close>, which is not among the sources: they are parameters of the model.
\<close>

record hope_rfm96 =
  REG_RegModemConfig1 :: byte
  REG_RegModemConfig2 :: byte
  REG_RegModemConfig3 :: byte
  REG_RegPreambleMsb :: byte
  REG_RegPreambleLsb :: byte
  REG_RegPaRamp :: byte

subsection \<open>The global state\<close>

text \<open>
  The enumeration \<^verbatim>\<open>sf_t\<close> is kept as its integer value (\<^verbatim>\<open>SF7=7\<close> to
  \<^verbatim>\<open>SF12\<close>), since the encoder's \<^verbatim>\<open>switch\<close> has a \<^verbatim>\<open>default\<close> branch for
  any other value. The location \<^verbatim>\<open>lat\<close>, \<^verbatim>\<open>lon\<close> is held as the text that
  \<^verbatim>\<open>%.5f\<close> prints for it: floating-point formatting is outside the model.
\<close>

record gw =
  is_sx1272 :: bool
  receivedbytes :: byte
  cp_nb_rx_rcv :: u32
  cp_nb_rx_ok :: u32
  cp_up_pkt_fwd :: u32
  transmission_mode :: int
  sf :: int
  freq :: u32
  lat_fmt :: string
  lon_fmt :: string
  alt :: i32
  lora_snr :: int
  lora_packet :: cbuf
  lora_packet_length :: int
  hwaddr :: "nat \<Rightarrow> byte"
  status_report :: cbuf
  spi_miso :: "nat \<Rightarrow> byte"
  spi_count :: nat
  io :: "io_event list"

definition SF7 :: int where "SF7 = 7"
definition SF8 :: int where "SF8 = 8"
definition SF9 :: int where "SF9 = 9"
definition SF10 :: int where "SF10 = 10"
definition SF11 :: int where "SF11 = 11"
definition SF12 :: int where "SF12 = 12"

definition platform :: string where "platform = ''Single Channel Gateway''"
definition email :: string where "email = ''''"
definition description :: string where "description = ''''"

subsection \<open>The register bus\<close>

definition emit :: "io_event list \<Rightarrow> gw \<Rightarrow> gw" where
  "emit evs s = s\<lparr>io := io s @ evs\<rparr>"

text \<open>One full-duplex transfer of two bytes, under chip select. The second byte of
  the buffer comes back from the chip.\<close>

definition read_events :: "byte \<Rightarrow> io_event list" where
  "read_events addr =
     [DigitalWrite ssPin False, SpiDataRW CHANNEL (addr AND 0x7F) 0x00,
      DigitalWrite ssPin True]"

definition write_events :: "byte \<Rightarrow> byte \<Rightarrow> io_event list" where
  "write_events addr val =
     [DigitalWrite ssPin False, SpiDataRW CHANNEL (addr OR 0x80) val,
      DigitalWrite ssPin True]"

definition readDraginoRegister :: "byte \<Rightarrow> gw \<Rightarrow> byte \<times> gw" where
  "readDraginoRegister addr s =
     (spi_miso s (spi_count s),
      (emit (read_events addr) s)\<lparr>spi_count := Suc (spi_count s)\<rparr>)"

definition writeDraginoRegister :: "byte \<Rightarrow> byte \<Rightarrow> gw \<Rightarrow> gw" where
  "writeDraginoRegister addr val s =
     (emit (write_events addr val) s)\<lparr>spi_count := Suc (spi_count s)\<rparr>"

subsection \<open>Receiving one packet\<close>

text \<open>The loop \<^verbatim>\<open>for (i = 0; i < receivedCount; i++) payload[i] = read(REG_FIFO)\<close>,
  at index \<open>i\<close> with \<open>k\<close> iterations to go; \<^verbatim>\<open>payload\<close> is \<^verbatim>\<open>lora_packet\<close>.\<close>

fun read_payload :: "nat \<Rightarrow> nat \<Rightarrow> gw \<Rightarrow> gw" where
  "read_payload i 0 s = s"
| "read_payload i (Suc k) s =
     (case readDraginoRegister REG_FIFO s of
        (v, s1) \<Rightarrow> read_payload (Suc i) k (s1\<lparr>lora_packet := (lora_packet s1)(i := v)\<rparr>))"

definition receivePkt :: "gw \<Rightarrow> bool \<times> gw" where
  "receivePkt s0 =
     (let s1 = writeDraginoRegister REG_IRQ_FLAGS 0x40 s0
      in case readDraginoRegister REG_IRQ_FLAGS s1 of
        (irqflags, s2) \<Rightarrow>
          let s3 = s2\<lparr>cp_nb_rx_rcv := cp_nb_rx_rcv s2 + 1\<rparr>
          in if uint irqflags AND 0x20 = 0x20
             then (False, writeDraginoRegister REG_IRQ_FLAGS 0x20 s3)
             else
               let s4 = s3\<lparr>cp_nb_rx_ok := cp_nb_rx_ok s3 + 1\<rparr>
               in case readDraginoRegister REG_FIFO_RX_CURRENT_ADDR s4 of
                 (currentAddr, s5) \<Rightarrow>
                   case readDraginoRegister REG_RX_NB_BYTES s5 of
                     (receivedCount, s6) \<Rightarrow>
                       let s7 = s6\<lparr>receivedbytes := receivedCount\<rparr>;
                           s8 = writeDraginoRegister REG_FIFO_ADDR_PTR currentAddr s7
                       in (True, read_payload 0 (unat receivedCount) s8))"

subsection \<open>Configuring the transceiver\<close>

text \<open>The frequency word of \<^verbatim>\<open>setupDraginoLoRa\<close>:
  \<^verbatim>\<open>uint64_t frf = ((uint64_t)freq << 19) / 32000000\<close>, and the three bytes it is
  written as: \<^verbatim>\<open>(uint8_t)(frf>>16)\<close>, \<^verbatim>\<open>(uint8_t)(frf>>8)\<close>, \<^verbatim>\<open>(uint8_t)(frf>>0)\<close>.\<close>

definition frf_of :: "u32 \<Rightarrow> u64" where
  "frf_of hz = push_bit 19 (ucast hz :: u64) div 32000000"

definition frequencyRegisters :: "u32 \<Rightarrow> byte \<times> byte \<times> byte" where
  "frequencyRegisters hz =
     (ucast (drop_bit 16 (frf_of hz)), ucast (drop_bit 8 (frf_of hz)),
      ucast (drop_bit 0 (frf_of hz)))"

text \<open>Lines 262 to 275: pins, SPI, and the first reset pulse.\<close>

definition pin_events :: "io_event list" where
  "pin_events =
     [WiringPiSetup, PinMode ssPin True, PinMode dio0 False, PinMode RST True,
      WiringPiSPISetup CHANNEL 500000]"

definition first_pulse :: "io_event list" where
  "first_pulse = [DigitalWrite RST True, Delay 100, DigitalWrite RST False, Delay 100]"

definition second_pulse :: "io_event list" where
  "second_pulse = [DigitalWrite RST False, Delay 100, DigitalWrite RST True, Delay 100]"

definition setup_pins :: "int \<Rightarrow> gw \<Rightarrow> gw" where
  "setup_pins mode s =
     (let s1 = emit pin_events s;
          s2 = s1\<lparr>transmission_mode := mode\<rparr>
      in emit first_pulse s2)"

text \<open>Lines 277 to 299: the version register is read; on any value but \<open>0x22\<close> the
  reset line is pulsed again and the register read a second time. \<open>False\<close> is the
  branch that prints "Unrecognized transceiver." and returns \<open>-1\<close>.\<close>

definition detect_variant :: "gw \<Rightarrow> bool \<times> gw" where
  "detect_variant s =
     (case readDraginoRegister REG_VERSION s of
        (version, s1) \<Rightarrow>
          if version = 0x22 then (True, s1\<lparr>is_sx1272 := True\<rparr>)
          else
            let s2 = emit second_pulse s1
            in case readDraginoRegister REG_VERSION s2 of
              (version2, s3) \<Rightarrow>
                if version2 = 0x12 then (True, s3\<lparr>is_sx1272 := False\<rparr>)
                else (False, s3))"

text \<open>Lines 301 to 335.\<close>

definition configure_modem :: "gw \<Rightarrow> gw" where
  "configure_modem s0 =
     (let s1 = writeDraginoRegister REG_OPMODE SX72_MODE_SLEEP s0;
          (msb, mid, lsb) = frequencyRegisters (freq s1);
          s2 = writeDraginoRegister REG_FRF_MSB msb s1;
          s3 = writeDraginoRegister REG_FRF_MID mid s2;
          s4 = writeDraginoRegister REG_FRF_LSB lsb s3;
          sf4 = (word_of_int (push_bit 4 (sf s4) OR 0x04) :: byte);
          s5 = (if is_sx1272 s4 then
                  writeDraginoRegister REG_MODEM_CONFIG2 sf4
                    (if sf s4 = SF11 \<or> sf s4 = SF12
                     then writeDraginoRegister REG_MODEM_CONFIG 0x0B s4
                     else writeDraginoRegister REG_MODEM_CONFIG 0x0A s4)
                else
                  writeDraginoRegister REG_MODEM_CONFIG2 sf4
                    (writeDraginoRegister REG_MODEM_CONFIG 0x72
                      (if sf s4 = SF11 \<or> sf s4 = SF12
                       then writeDraginoRegister REG_MODEM_CONFIG3 0x0C s4
                       else writeDraginoRegister REG_MODEM_CONFIG3 0x04 s4)));
          s6 = (if sf s5 = SF10 \<or> sf s5 = SF11 \<or> sf s5 = SF12
                then writeDraginoRegister REG_SYMB_TIMEOUT_LSB 0x05 s5
                else writeDraginoRegister REG_SYMB_TIMEOUT_LSB 0x08 s5);
          s7 = writeDraginoRegister REG_MAX_PAYLOAD_LENGTH 0x80 s6;
          s8 = writeDraginoRegister REG_PAYLOAD_LENGTH PAYLOAD_LENGTH s7;
          s9 = writeDraginoRegister REG_HOP_PERIOD 0xFF s8
      in case readDraginoRegister REG_FIFO_RX_BASE_AD s9 of
           (base, s10) \<Rightarrow> writeDraginoRegister REG_FIFO_ADDR_PTR base s10)"

text \<open>Lines 337 to 387: the settings of transmission mode 1, preamble, sync word,
  gain control, and the switch to continuous receive.\<close>

definition configure_mode :: "hope_rfm96 \<Rightarrow> gw \<Rightarrow> gw" where
  "configure_mode h s0 =
     (let s1 = (if transmission_mode s0 = 1 then
                  writeDraginoRegister (REG_RegModemConfig2 h) 0xc0
                    (writeDraginoRegister (REG_RegModemConfig1 h) (0x70 + 0x02) s0)
                else s0);
          preamble_length = (8 :: int);
          s2 = writeDraginoRegister (REG_RegPreambleMsb h)
                 (word_of_int (drop_bit 8 preamble_length)) s1;
          s3 = writeDraginoRegister (REG_RegPreambleLsb h)
                 (word_of_int (preamble_length AND 0xff)) s2;
          s4 = writeDraginoRegister 0x39 0x12 s3;
          tmp = (if transmission_mode s4 = 1 then (0x04 :: int) OR 0x08 else 0x04);
          s5 = writeDraginoRegister (REG_RegModemConfig3 h) (word_of_int tmp) s4;
          s6 = writeDraginoRegister 0x31 0x43 s5;
          s7 = writeDraginoRegister (REG_RegPaRamp h) 0x09 s6;
          s8 = writeDraginoRegister REG_LNA LNA_MAX_GAIN s7
      in writeDraginoRegister REG_OPMODE SX72_MODE_RX_CONTINUOS s8)"

definition setupDraginoLoRa ::
    "hope_rfm96 \<Rightarrow> int \<Rightarrow> int \<Rightarrow> u32 \<Rightarrow> string \<Rightarrow> gw \<Rightarrow> int \<times> gw" where
  "setupDraginoLoRa h address mode channel pwr s =
     (case detect_variant (setup_pins mode s) of
        (recognised, s1) \<Rightarrow>
          if recognised then (0, configure_mode h (configure_modem s1)) else (-1, s1))"

subsection \<open>Text formatting\<close>

text \<open>Decimal digits, as \<^verbatim>\<open>%u\<close> prints an unsigned value.\<close>

fun dec :: "nat \<Rightarrow> string" where
  "dec n = (if n < 10 then [''0123456789'' ! n]
            else dec (n div 10) @ [''0123456789'' ! (n mod 10)])"

declare dec.simps [simp del]

definition fmt_u :: "nat \<Rightarrow> string" where
  "fmt_u n = dec n"

text \<open>\<^verbatim>\<open>%d\<close>, \<^verbatim>\<open>%i\<close>, and \<^verbatim>\<open>%li\<close> where \<^verbatim>\<open>long\<close> is as wide as \<^verbatim>\<open>int\<close>.\<close>

definition fmt_d :: "int \<Rightarrow> string" where
  "fmt_d i = (if i < 0 then CHR ''-'' # dec (nat (- i)) else dec (nat i))"

text \<open>
  \<^verbatim>\<open>%.6lf\<close> of \<^verbatim>\<open>(double)freq/1000000\<close>. The quotient has six decimals and
  fewer than eleven significant digits, so the nearest double prints as the exact
  quotient: the whole megahertz, a point, and the remaining hertz on six digits.
\<close>

definition fmt_freq :: "u32 \<Rightarrow> string" where
  "fmt_freq hz =
     dec (unat hz div 1000000) @ ''.'' @
     replicate (6 - length (dec (unat hz mod 1000000))) (CHR ''0'') @
     dec (unat hz mod 1000000)"

definition byte_of_char :: "char \<Rightarrow> byte" where
  "byte_of_char c = of_char c"

definition bytes_of :: "string \<Rightarrow> byte list" where
  "bytes_of txt = map byte_of_char txt"

subsection \<open>Writing into a buffer\<close>

definition put_bytes :: "cbuf \<Rightarrow> nat \<Rightarrow> byte list \<Rightarrow> cbuf" where
  "put_bytes b off xs =
     (\<lambda>i. if off \<le> i \<and> i < off + length xs then xs ! (i - off) else b i)"

text \<open>The bytes of a buffer from index \<open>lo\<close> up to, not including, \<open>hi\<close>.\<close>

definition region :: "cbuf \<Rightarrow> nat \<Rightarrow> nat \<Rightarrow> byte list" where
  "region b lo hi = map b [lo..<hi]"

text \<open>An \<^verbatim>\<open>int\<close> passed where \<^verbatim>\<open>size_t\<close> is expected, on the 32-bit target.\<close>

definition size_t :: "int \<Rightarrow> nat" where
  "size_t i = nat (i mod 2 ^ 32)"

text \<open>
  The three ways the encoders write at the running index:
  \<^item> \<open>Memcpy lit n\<close>: \<^verbatim>\<open>memcpy(buf + index, lit, n); index += n\<close>, from a string
    literal, which ends with a zero byte;
  \<^item> \<open>Store c\<close>: \<^verbatim>\<open>buf[index] = c; ++index\<close>;
  \<^item> \<open>Snprintf txt\<close>: \<^verbatim>\<open>j = snprintf(buf + index, SIZE - index, ...); index += j\<close>,
    where \<open>txt\<close> is the formatted text: at most \<open>SIZE - index - 1\<close> of its bytes are
    written, then a zero byte, and \<open>j\<close> is the length of the whole of \<open>txt\<close>.
\<close>

datatype wr_cmd = Memcpy string nat | Store byte | Snprintf string

fun wr :: "nat \<Rightarrow> wr_cmd \<Rightarrow> cbuf \<times> nat \<Rightarrow> cbuf \<times> nat" where
  "wr cap (Memcpy lit n) (b, idx) =
     (put_bytes b idx (take n (bytes_of lit @ [0])), idx + n)"
| "wr cap (Store c) (b, idx) = (b(idx := c), idx + 1)"
| "wr cap (Snprintf txt) (b, idx) =
     (let n = size_t (int cap - int idx)
      in (if n = 0 then b else put_bytes b idx (take (n - 1) (bytes_of txt) @ [0]),
          idx + length txt))"

definition compose :: "nat \<Rightarrow> wr_cmd list \<Rightarrow> cbuf \<times> nat \<Rightarrow> cbuf \<times> nat" where
  "compose cap cmds st = fold (wr cap) cmds st"

text \<open>The 12-byte header both encoders write, in the order of the source.\<close>

definition put_header :: "cbuf \<Rightarrow> (nat \<Rightarrow> byte) \<Rightarrow> int \<Rightarrow> int \<Rightarrow> cbuf" where
  "put_header b hw rand1 rand2 =
     (let token_h = (word_of_int rand1 :: byte);
          token_l = (word_of_int rand2 :: byte)
      in b(0 := PROTOCOL_VERSION, 3 := PKT_PUSH_DATA,
           4 := hw 0, 5 := hw 1, 6 := hw 2, 7 := 0xFF, 8 := 0xFF,
           9 := hw 3, 10 := hw 4, 11 := hw 5,
           1 := token_h, 2 := token_l))"

subsection \<open>Signal quality\<close>

text \<open>Lines 468 to 479: the byte is promoted to \<^verbatim>\<open>int\<close> for \<^verbatim>\<open>~\<close>, \<^verbatim>\<open>+\<close>,
  \<^verbatim>\<open>&\<close> and \<^verbatim>\<open>>>\<close>, stored back into the byte, and negated as an \<^verbatim>\<open>int\<close>.\<close>

definition decodeSnr :: "byte \<Rightarrow> int" where
  "decodeSnr val =
     (if uint val AND 0x80 \<noteq> 0
      then - uint (word_of_int (drop_bit 2 ((NOT (uint val) + 1) AND 0xFF)) :: byte)
      else drop_bit 2 (uint val AND 0xFF))"

text \<open>Lines 481 to 488.\<close>

definition rssicorr :: "bool \<Rightarrow> int" where
  "rssicorr sx1272 = (if sx1272 then 139 else 157)"

definition decodeRssi :: "byte \<Rightarrow> bool \<Rightarrow> int" where
  "decodeRssi raw sx1272 = uint raw - rssicorr sx1272"

subsection \<open>The uplink frame\<close>

definition datr_cmd :: "int \<Rightarrow> wr_cmd" where
  \<open>datr_cmd sfv =
     (if sfv = SF7 then Memcpy '',"datr":"SF7'' 12
      else if sfv = SF8 then Memcpy '',"datr":"SF8'' 12
      else if sfv = SF9 then Memcpy '',"datr":"SF9'' 12
      else if sfv = SF10 then Memcpy '',"datr":"SF10'' 13
      else if sfv = SF11 then Memcpy '',"datr":"SF11'' 13
      else if sfv = SF12 then Memcpy '',"datr":"SF12'' 13
      else Memcpy '',"datr":"SF?'' 12)\<close>

text \<open>Lines 536 to 605, in order. The payload itself is not written: the call of the
  base64 encoder is commented out and \<^verbatim>\<open>j = 0\<close> stands in its place.\<close>

definition uplink_cmds :: "u32 \<Rightarrow> u32 \<Rightarrow> int \<Rightarrow> int \<Rightarrow> int \<Rightarrow> byte \<Rightarrow> wr_cmd list" where
  \<open>uplink_cmds tmst hz sfv snr rssi len =
     [Memcpy ''{"rxpk":['' 9,
      Store (byte_of_char CHR ''{''),
      Snprintf (''"tmst":'' @ fmt_u (unat tmst)),
      Snprintf ('',"chan":'' @ fmt_u 0 @ '',"rfch":'' @ fmt_u 0 @ '',"freq":'' @ fmt_freq hz),
      Memcpy '',"stat":1'' 9,
      Memcpy '',"modu":"LORA"'' 14,
      datr_cmd sfv,
      Memcpy ''BW125"'' 6,
      Memcpy '',"codr":"4/5"'' 13,
      Snprintf ('',"lsnr":'' @ fmt_d snr),
      Snprintf ('',"rssi":'' @ fmt_d rssi @ '',"size":'' @ fmt_u (unat len)),
      Memcpy '',"data":"'' 9,
      Store (byte_of_char CHR 0x22),
      Store (byte_of_char CHR ''}''),
      Store (byte_of_char CHR '']''),
      Store (byte_of_char CHR ''}'')]\<close>

text \<open>
  One poll. The inputs from the environment are the level read from \<^verbatim>\<open>dio0\<close>, the
  two values of \<^verbatim>\<open>rand()\<close>, the time of \<^verbatim>\<open>gettimeofday\<close> and the bytes found in
  the local array \<^verbatim>\<open>buff_up\<close>. The result is the return value, the composed frame
  (\<^verbatim>\<open>buff_up\<close> and \<^verbatim>\<open>buff_index\<close>, what the commented-out \<^verbatim>\<open>sendudp\<close> would
  be given) when one is composed, and the state. The time stamp
  \<^verbatim>\<open>(uint32_t)(now.tv_sec*1000000 + now.tv_usec)\<close> is the sum modulo \<open>2 ^ 32\<close>.
\<close>

definition receiveDraginoPacket ::
    "int \<Rightarrow> int \<Rightarrow> int \<Rightarrow> int \<Rightarrow> int \<Rightarrow> cbuf \<Rightarrow> gw \<Rightarrow> int \<times> (cbuf \<times> nat) option \<times> gw" where
  "receiveDraginoPacket level rand1 rand2 tv_sec tv_usec buff_up s =
     (let s0 = emit [DigitalRead dio0 level] s
      in if level = 1 then
        case receivePkt s0 of
          (received, s1) \<Rightarrow>
            if received then
              case readDraginoRegister REG_PKT_SNR_VALUE s1 of
                (val, s2) \<Rightarrow>
                  let s3 = s2\<lparr>lora_snr := decodeSnr val\<rparr>
                  in case readDraginoRegister 0x1A s3 of
                    (rssi_print, s4) \<Rightarrow>
                      case readDraginoRegister 0x1B s4 of
                        (rssi_print2, s5) \<Rightarrow>
                          let b1 = put_header buff_up (hwaddr s5) rand1 rand2;
                              tmst = (word_of_int (tv_sec * 1000000 + tv_usec) :: u32)
                          in case readDraginoRegister 0x1A s5 of
                            (rssi_raw, s6) \<Rightarrow>
                              let s7 = s6\<lparr>lora_packet_length := uint (receivedbytes s6)\<rparr>;
                                  (b2, buff_index) =
                                     compose TX_BUFF_SIZE
                                       (uplink_cmds tmst (freq s6) (sf s6) (lora_snr s6)
                                          (decodeRssi rssi_raw (is_sx1272 s6)) (receivedbytes s6))
                                       (b1, 12)
                              in (0, Some (b2(buff_index := 0), buff_index), s7)
            else (1, None, s1)
      else (1, None, s0))"

subsection \<open>The status frame\<close>

text \<open>The text of the status report, from the format string of line 444; the three
  counters are its last arguments here.\<close>

definition stat_json :: "string \<Rightarrow> string \<Rightarrow> string \<Rightarrow> i32 \<Rightarrow> u32 \<Rightarrow> u32 \<Rightarrow> u32 \<Rightarrow> string" where
  \<open>stat_json stat_timestamp lati long alti rxnb rxok rxfw =
     ''{"stat":{"time":"'' @ stat_timestamp @ ''","lati":'' @ lati @ '',"long":'' @ long @
     '',"alti":'' @ fmt_d (sint alti) @ '',"rxnb":'' @ fmt_u (unat rxnb) @
     '',"rxok":'' @ fmt_u (unat rxok) @ '',"rxfw":'' @ fmt_u (unat rxfw) @
     '',"ackr":'' @ ''0.0'' @ '',"dwnb":'' @ fmt_u 0 @ '',"txnb":'' @ fmt_u 0 @
     '',"pfrm":"'' @ platform @ ''","mail":"'' @ email @ ''","desc":"'' @ description @
     ''"}}''\<close>

text \<open>
  \<^verbatim>\<open>sendstat\<close>: the inputs from the environment are the two values of \<^verbatim>\<open>rand()\<close>
  and the text \<^verbatim>\<open>strftime\<close> leaves in \<^verbatim>\<open>stat_timestamp\<close>. The static array
  \<^verbatim>\<open>status_report\<close> is part of the state; the result is \<^verbatim>\<open>stat_index\<close>.
\<close>

definition sendstat :: "int \<Rightarrow> int \<Rightarrow> string \<Rightarrow> gw \<Rightarrow> nat \<times> gw" where
  "sendstat rand1 rand2 stat_timestamp s =
     (let b1 = put_header (status_report s) (hwaddr s) rand1 rand2;
          (b2, stat_index) =
             compose STATUS_SIZE
               [Snprintf (stat_json stat_timestamp (lat_fmt s) (lon_fmt s) (alt s)
                            (cp_nb_rx_rcv s) (cp_nb_rx_ok s) (cp_up_pkt_fwd s))]
               (b1, 12)
      in (stat_index, s\<lparr>status_report := b2(stat_index := 0)\<rparr>))"

subsection \<open>The main loop\<close>

text \<open>What one round of the loop of \<^verbatim>\<open>draginoMain\<close> takes from the environment.\<close>

record tick =
  dio0_level :: int
  rx_rand1 :: int
  rx_rand2 :: int
  rx_tv_sec :: int
  rx_tv_usec :: int
  rx_buff_up :: cbuf
  now_tv_sec :: int
  stat_rand1 :: int
  stat_rand2 :: int
  stat_time :: string

text \<open>Lines 657 to 668: the loop body, on the local \<^verbatim>\<open>lasttime\<close> and the globals.\<close>

definition main_round :: "tick \<Rightarrow> u32 \<times> gw \<Rightarrow> u32 \<times> gw" where
  "main_round e st =
     (case st of (lasttime, s) \<Rightarrow>
        case receiveDraginoPacket (dio0_level e) (rx_rand1 e) (rx_rand2 e)
               (rx_tv_sec e) (rx_tv_usec e) (rx_buff_up e) s of
          (ret, frame, s1) \<Rightarrow>
            let nowseconds = (word_of_int (now_tv_sec e) :: u32)
            in if 30 \<le> nowseconds - lasttime then
                 case sendstat (stat_rand1 e) (stat_rand2 e) (stat_time e) s1 of
                   (stat_index, s2) \<Rightarrow>
                     (nowseconds,
                      emit [Delay 1]
                        (s2\<lparr>cp_nb_rx_rcv := 0, cp_nb_rx_ok := 0, cp_up_pkt_fwd := 0\<rparr>))
               else (lasttime, emit [Delay 1] s1))"

text \<open>The loop never ends; \<open>main_loop\<close> runs its first rounds, one per element.\<close>

definition main_loop :: "tick list \<Rightarrow> u32 \<times> gw \<Rightarrow> u32 \<times> gw" where
  "main_loop ticks st = fold main_round ticks st"

subsection \<open>The state at program start\<close>

text \<open>
  The globals with the initial values the translation unit gives them (zero where it
  gives none), before any function has run: \<^verbatim>\<open>transmission_mode = 1\<close>, hence
  \<^verbatim>\<open>sf = SF12\<close>; \<^verbatim>\<open>freq = 865200000\<close>; \<^verbatim>\<open>lat = lon = 0.0\<close>, printed as
  \<^verbatim>\<open>0.00000\<close>. The behaviour of the chip and the hardware address of the network
  interface are the parameters.
\<close>

definition boot_state :: "(nat \<Rightarrow> byte) \<Rightarrow> (nat \<Rightarrow> byte) \<Rightarrow> gw" where
  "boot_state miso hw =
     \<lparr>is_sx1272 = True, receivedbytes = 0, cp_nb_rx_rcv = 0, cp_nb_rx_ok = 0,
      cp_up_pkt_fwd = 0, transmission_mode = 1, sf = SF12, freq = 865200000,
      lat_fmt = ''0.00000'', lon_fmt = ''0.00000'', alt = 0, lora_snr = 0,
      lora_packet = (\<lambda>_. 0), lora_packet_length = 0, hwaddr = hw,
      status_report = (\<lambda>_. 0), spi_miso = miso, spi_count = 0, io = []\<rparr>"

subsection \<open>Vocabulary of the properties\<close>

text \<open>A 24-bit value, cut to 24 bits and split into its three bytes, most significant
  first; and back.\<close>

definition split24 :: "nat \<Rightarrow> byte \<times> byte \<times> byte" where
  "split24 n =
     (let m = n mod 2 ^ 24
      in (of_nat (m div 2 ^ 16), of_nat (m div 2 ^ 8 mod 2 ^ 8), of_nat (m mod 2 ^ 8)))"

definition triple_value :: "byte \<times> byte \<times> byte \<Rightarrow> nat" where
  "triple_value t =
     (case t of (msb, mid, lsb) \<Rightarrow> unat msb * 2 ^ 16 + unat mid * 2 ^ 8 + unat lsb)"

text \<open>The inverse fixed-point formula: register value times 32 MHz over \<open>2 ^ 19\<close>.\<close>

definition frequency_of_triple :: "byte \<times> byte \<times> byte \<Rightarrow> real" where
  "frequency_of_triple t = real (triple_value t) * 32000000 / 2 ^ 19"

text \<open>The values written to the register \<open>addr\<close> in a trace, in order: a write
  transfer sends the address with bit 7 set.\<close>

fun written :: "byte \<Rightarrow> io_event list \<Rightarrow> byte list" where
  "written addr [] = []"
| "written addr (SpiDataRW ch a v # evs) =
     (if a = addr OR 0x80 then v # written addr evs else written addr evs)"
| "written addr (_ # evs) = written addr evs"

text \<open>The three writes of the frequency bytes, as they appear in the trace.\<close>

definition frf_events :: "u32 \<Rightarrow> io_event list" where
  "frf_events hz =
     (case frequencyRegisters hz of
        (msb, mid, lsb) \<Rightarrow>
          write_events REG_FRF_MSB msb @ write_events REG_FRF_MID mid @
          write_events REG_FRF_LSB lsb)"

text \<open>An instance of the addresses of \<^verbatim>\<open>hope_rfm96.h\<close>, for concrete runs: the values
  of the RFM96 register map.\<close>

definition hope_example :: hope_rfm96 where
  "hope_example =
     \<lparr>REG_RegModemConfig1 = 0x1D, REG_RegModemConfig2 = 0x1E, REG_RegModemConfig3 = 0x26,
      REG_RegPreambleMsb = 0x20, REG_RegPreambleLsb = 0x21, REG_RegPaRamp = 0x0A\<rparr>"

text \<open>What the loop of \<^verbatim>\<open>receivePkt\<close> leaves in the payload buffer: \<open>k\<close> bytes from
  index \<open>i\<close>, taken from the transfers \<open>n\<close>, \<open>n + 1\<close>, ...\<close>

definition payload_fill :: "nat \<Rightarrow> nat \<Rightarrow> (nat \<Rightarrow> byte) \<Rightarrow> nat \<Rightarrow> cbuf \<Rightarrow> cbuf" where
  "payload_fill i k miso n pkt =
     (\<lambda>j. if i \<le> j \<and> j < i + k then miso (n + (j - i)) else pkt j)"

text \<open>The gateway identity of the wire header: the hardware address with two bytes
  \<open>0xFF\<close> in the middle.\<close>

definition gateway_id :: "(nat \<Rightarrow> byte) \<Rightarrow> byte list" where
  "gateway_id hw = [hw 0, hw 1, hw 2, 0xFF, 0xFF, hw 3, hw 4, hw 5]"

text \<open>
  What the chip answers during a poll that starts in the state \<open>s\<close>, by the position
  of the transfer: \<^verbatim>\<open>receivePkt\<close> writes the IRQ flags, reads them (second transfer),
  reads the current address and the byte count (fourth transfer), sets the FIFO pointer
  and reads the payload; then come the reads of the SNR register and, three times, of
  an RSSI register, the last of which goes into the frame.
\<close>

definition crc_error :: "gw \<Rightarrow> bool" where
  "crc_error s = (uint (spi_miso s (spi_count s + 1)) AND 0x20 = 0x20)"

definition rx_len :: "gw \<Rightarrow> byte" where
  "rx_len s = spi_miso s (spi_count s + 3)"

definition rx_snr_raw :: "gw \<Rightarrow> byte" where
  "rx_snr_raw s = spi_miso s (spi_count s + 5 + unat (rx_len s))"

definition rx_rssi_raw :: "gw \<Rightarrow> byte" where
  "rx_rssi_raw s = spi_miso s (spi_count s + 8 + unat (rx_len s))"

text \<open>The wire header, and the write commands of the uplink body of that poll.\<close>

definition wire_header :: "(nat \<Rightarrow> byte) \<Rightarrow> int \<Rightarrow> int \<Rightarrow> byte list" where
  "wire_header hw rand1 rand2 =
     [PROTOCOL_VERSION, word_of_int rand1, word_of_int rand2, PKT_PUSH_DATA] @ gateway_id hw"

definition rx_cmds :: "int \<Rightarrow> int \<Rightarrow> gw \<Rightarrow> wr_cmd list" where
  "rx_cmds tv_sec tv_usec s =
     uplink_cmds (word_of_int (tv_sec * 1000000 + tv_usec)) (freq s) (sf s)
       (decodeSnr (rx_snr_raw s)) (decodeRssi (rx_rssi_raw s) (is_sx1272 s)) (rx_len s)"

text \<open>The state after the four register reads that follow a packet received without
  CRC error.\<close>

definition after_reads :: "gw \<Rightarrow> gw" where
  "after_reads s =
     snd (readDraginoRegister 0x1A
       (snd (readDraginoRegister 0x1B
         (snd (readDraginoRegister 0x1A
           ((snd (readDraginoRegister REG_PKT_SNR_VALUE
                   (snd (receivePkt (emit [DigitalRead dio0 1] s)))))
              \<lparr>lora_snr := decodeSnr (rx_snr_raw s)\<rparr>))))))"

text \<open>The text \<^verbatim>\<open>sendstat\<close> formats in the state \<open>s\<close>.\<close>

definition stat_text :: "string \<Rightarrow> gw \<Rightarrow> string" where
  "stat_text ts s =
     stat_json ts (lat_fmt s) (lon_fmt s) (alt s) (cp_nb_rx_rcv s) (cp_nb_rx_ok s)
       (cp_up_pkt_fwd s)"

text \<open>
  The body of an uplink frame as the protocol reads it, written out as one text from
  the fields: a single \<open>rxpk\<close> element with time stamp, channel and radio chain 0,
  frequency in MHz, status 1, modulation, data rate \<open>SF<n>BW125\<close> (a question mark
  for a spreading factor outside 7 to 12), coding rate, SNR, RSSI, size, and an empty
  data field.
\<close>

definition sf_text :: "int \<Rightarrow> string" where
  "sf_text sfv = (if 7 \<le> sfv \<and> sfv \<le> 12 then dec (nat sfv) else ''?'')"

definition uplink_json :: "u32 \<Rightarrow> u32 \<Rightarrow> int \<Rightarrow> int \<Rightarrow> int \<Rightarrow> byte \<Rightarrow> string" where
  \<open>uplink_json tmst hz sfv snr rssi len =
     ''{"rxpk":[{"tmst":'' @ dec (unat tmst) @ '',"chan":0,"rfch":0,"freq":'' @ fmt_freq hz @
     '',"stat":1,"modu":"LORA","datr":"SF'' @ sf_text sfv @ ''BW125","codr":"4/5","lsnr":'' @
     fmt_d snr @ '',"rssi":'' @ fmt_d rssi @ '',"size":'' @ dec (unat len) @
     '',"data":""}]}''\<close>

text \<open>The bytes a write command is asked to write, in full, and the bytes asked for by
  a list of commands: the composed body before any truncation.\<close>

fun wr_text :: "wr_cmd \<Rightarrow> byte list" where
  "wr_text (Memcpy lit n) = take n (bytes_of lit @ [0])"
| "wr_text (Store c) = [c]"
| "wr_text (Snprintf txt) = bytes_of txt"

definition cmds_text :: "wr_cmd list \<Rightarrow> byte list" where
  "cmds_text cmds = concat (map wr_text cmds)"

text \<open>A \<^verbatim>\<open>memcpy\<close> that stays inside its string literal.\<close>

fun wr_ok :: "wr_cmd \<Rightarrow> bool" where
  "wr_ok (Memcpy lit n) = (n \<le> Suc (length lit))"
| "wr_ok (Store c) = True"
| "wr_ok (Snprintf txt) = True"

section \<open>Properties\<close>

subsection \<open>Arithmetic of bytes and of the frequency word\<close>

lemma int_not_plus1: "NOT (x::int) + 1 = - x"
  by (simp add: not_int_def)

lemma int_and_255: "(x::int) AND 0xFF = x mod 256"
proof -
  have "x AND mask 8 = x mod 2 ^ 8"
    by (simp only: take_bit_eq_mask [symmetric] take_bit_eq_mod)
  then show ?thesis by (simp add: mask_eq_exp_minus_1)
qed

lemma byte_bit7_iff: "bit (val::byte) 7 \<longleftrightarrow> 128 \<le> uint val"
proof -
  have b: "0 \<le> uint val" "uint val < 256" using uint_bounded [of val] by simp_all
  have "bit val 7 \<longleftrightarrow> bit (uint val) 7" by (simp add: bit_uint_iff)
  also have "\<dots> \<longleftrightarrow> odd (uint val div 2 ^ 7)" by (simp only: bit_iff_odd)
  also have "\<dots> \<longleftrightarrow> 128 \<le> uint val"
  proof (cases "128 \<le> uint val")
    case True
    then have "uint val div 2 ^ 7 = 1" using b by simp
    then show ?thesis using True by simp
  next
    case False
    then have "uint val div 2 ^ 7 = 0" using b by simp
    then show ?thesis using False by simp
  qed
  finally show ?thesis .
qed

lemma byte_and_0x80: "uint (val::byte) AND 0x80 \<noteq> 0 \<longleftrightarrow> bit val 7"
proof -
  have "(0x80::int) = 2 ^ 7" by simp
  then have "uint val AND 0x80 = 0 \<longleftrightarrow> \<not> bit (uint val) 7"
    by (simp only: and_exp_eq_0_iff_not_bit)
  then show ?thesis by (simp add: bit_uint_iff)
qed

lemma decodeSnr_negative_branch:
  assumes "bit val 7"
  shows "decodeSnr val = - ((256 - uint val) div 4)"
proof -
  have b: "128 \<le> uint val" "uint val < 256"
    using assms uint_bounded [of val] by (simp_all add: byte_bit7_iff)
  have m: "(- uint val) mod 256 = 256 - uint val"
    using b by (simp add: zmod_zminus1_eq_if)
  have d: "drop_bit 2 (256 - uint val) = (256 - uint val) div 4"
    by (simp add: drop_bit_eq_div)
  have r: "0 \<le> (256 - uint val) div 4" "(256 - uint val) div 4 < 256"
    using b by simp_all
  have "uint (word_of_int ((256 - uint val) div 4) :: byte) = (256 - uint val) div 4"
    using r by (simp add: uint_word_of_int take_bit_eq_mod)
  then show ?thesis using assms
    by (simp add: decodeSnr_def byte_and_0x80 int_not_plus1 int_and_255 m d)
qed

lemma decodeSnr_positive_branch:
  assumes "\<not> bit val 7"
  shows "decodeSnr val = uint val div 4"
proof -
  have b: "0 \<le> uint val" "uint val < 256" using uint_bounded [of val] by simp_all
  show ?thesis using assms b
    by (simp add: decodeSnr_def byte_and_0x80 int_and_255 drop_bit_eq_div)
qed

lemma frf_of_nat: "unat (frf_of hz) = unat hz * 2 ^ 19 div 32000000"
proof -
  have h: "unat hz < 2 ^ 32" using unsigned_less [of hz] by simp
  have u: "unat (ucast hz :: u64) = unat hz"
    using h by (simp add: unsigned_ucast_eq take_bit_nat_eq_self)
  have p: "unat (push_bit 19 (ucast hz :: u64)) = unat hz * 2 ^ 19"
  proof -
    have "unat hz * 524288 < 18446744073709551616" using h by simp
    then show ?thesis
      by (simp add: push_bit_eq_mult unat_word_ariths u)
  qed
  show ?thesis
    by (simp add: frf_of_def unat_div p)
qed

lemma ucast_drop_byte:
  "(ucast (drop_bit k (w::u64)) :: byte) = of_nat (unat w div 2 ^ k mod 2 ^ 8)"
proof -
  have "unat (ucast (drop_bit k w) :: byte) = take_bit 8 (drop_bit k (unat w))"
    by (simp add: unsigned_ucast_eq unat_drop_bit_eq)
  also have "\<dots> = unat w div 2 ^ k mod 2 ^ 8"
    by (simp only: take_bit_eq_mod drop_bit_eq_div)
  also have "\<dots> = unat (of_nat (unat w div 2 ^ k mod 2 ^ 8) :: byte)"
    by (simp add: unat_of_nat)
  finally show ?thesis by (simp only: word_unat_eq_iff)
qed

lemma nat_bytes24:
  fixes n :: nat
  shows "(n mod 2 ^ 24) div 2 ^ 16 = n div 2 ^ 16 mod 2 ^ 8"
    and "(n mod 2 ^ 24) div 2 ^ 8 mod 2 ^ 8 = n div 2 ^ 8 mod 2 ^ 8"
    and "(n mod 2 ^ 24) mod 2 ^ 8 = n mod 2 ^ 8"
proof -
  have "drop_bit 16 (take_bit 24 n) = take_bit 8 (drop_bit 16 n)"
    by (rule bit_eqI) (auto simp add: bit_take_bit_iff bit_drop_bit_eq)
  then show "(n mod 2 ^ 24) div 2 ^ 16 = n div 2 ^ 16 mod 2 ^ 8"
    by (simp only: take_bit_eq_mod drop_bit_eq_div)
  have "take_bit 8 (drop_bit 8 (take_bit 24 n)) = take_bit 8 (drop_bit 8 n)"
    by (rule bit_eqI) (auto simp add: bit_take_bit_iff bit_drop_bit_eq)
  then show "(n mod 2 ^ 24) div 2 ^ 8 mod 2 ^ 8 = n div 2 ^ 8 mod 2 ^ 8"
    by (simp only: take_bit_eq_mod drop_bit_eq_div)
  have "take_bit 8 (take_bit 24 n) = take_bit 8 n"
    by (rule bit_eqI) (auto simp add: bit_take_bit_iff)
  then show "(n mod 2 ^ 24) mod 2 ^ 8 = n mod 2 ^ 8"
    by (simp only: take_bit_eq_mod)
qed

lemma frequencyRegisters_split24:
  "frequencyRegisters hz = split24 (unat hz * 2 ^ 19 div 32000000)"
proof -
  define m where "m = unat hz * 2 ^ 19 div 32000000"
  have m: "unat (frf_of hz) = m" by (simp only: frf_of_nat m_def)
  have "frequencyRegisters hz =
      (of_nat (m div 2 ^ 16 mod 2 ^ 8), of_nat (m div 2 ^ 8 mod 2 ^ 8),
       of_nat (m div 2 ^ 0 mod 2 ^ 8))"
    unfolding frequencyRegisters_def by (simp only: ucast_drop_byte m)
  also have "\<dots> = split24 m"
    by (simp only: split24_def Let_def nat_bytes24) simp
  finally show ?thesis by (simp only: m_def)
qed

lemma floor_frequency_word:
  "nat \<lfloor>real (unat hz) * 2 ^ 19 / 32000000\<rfloor> = unat hz * 2 ^ 19 div 32000000"
proof -
  have "real (unat hz) * 2 ^ 19 / 32000000 = real (unat hz * 2 ^ 19) / real 32000000"
    by simp
  then show ?thesis
    by (simp only: floor_divide_of_nat_eq nat_int)
qed

lemma triple_value_split24:
  assumes "n < 2 ^ 24"
  shows "triple_value (split24 n) = n"
proof -
  have 1: "n div 2 ^ 16 < 2 ^ 8" using assms by (simp add: less_mult_imp_div_less)
  have "unat (of_nat (n div 2 ^ 16) :: byte) = n div 2 ^ 16"
    using 1 by (simp add: unat_of_nat)
  moreover have "unat (of_nat (n div 2 ^ 8 mod 2 ^ 8) :: byte) = n div 2 ^ 8 mod 2 ^ 8"
    by (simp add: unat_of_nat)
  moreover have "unat (of_nat (n mod 2 ^ 8) :: byte) = n mod 2 ^ 8"
    by (simp add: unat_of_nat)
  moreover have "n div 65536 * 65536 + n div 256 mod 256 * 256 + n mod 256 = n"
  proof -
    have a: "n = n div 256 * 256 + n mod 256" by simp
    have b: "n div 256 = n div 256 div 256 * 256 + n div 256 mod 256" by simp
    have c: "n div 256 div 256 = n div 65536" by (simp add: div_mult2_eq [symmetric])
    show ?thesis using a b c by linarith
  qed
  ultimately show ?thesis using assms
    by (simp add: triple_value_def split24_def Let_def)
qed

lemma frequencyRegisters_865200000: "frequencyRegisters 865200000 = (0xD8, 0x4C, 0xCC)"
  by (simp add: frequencyRegisters_def frf_of_def)

lemma split24_rounded: "split24 14175437 = (0xD8, 0x4C, 0xCD)"
  by (simp add: split24_def)

lemma rounded_865200000:
  "nat (round (865200000 * 2 ^ 19 / 32000000 :: real)) = 14175437"
  by (simp add: round_def)

subsection \<open>What the bus primitives change\<close>

lemma emit_fields [simp]:
  "io (emit evs s) = io s @ evs"
  "spi_count (emit evs s) = spi_count s"
  "spi_miso (emit evs s) = spi_miso s"
  "is_sx1272 (emit evs s) = is_sx1272 s"
  "receivedbytes (emit evs s) = receivedbytes s"
  "cp_nb_rx_rcv (emit evs s) = cp_nb_rx_rcv s"
  "cp_nb_rx_ok (emit evs s) = cp_nb_rx_ok s"
  "cp_up_pkt_fwd (emit evs s) = cp_up_pkt_fwd s"
  "transmission_mode (emit evs s) = transmission_mode s"
  "sf (emit evs s) = sf s"
  "freq (emit evs s) = freq s"
  "lat_fmt (emit evs s) = lat_fmt s"
  "lon_fmt (emit evs s) = lon_fmt s"
  "alt (emit evs s) = alt s"
  "lora_snr (emit evs s) = lora_snr s"
  "lora_packet (emit evs s) = lora_packet s"
  "lora_packet_length (emit evs s) = lora_packet_length s"
  "hwaddr (emit evs s) = hwaddr s"
  "status_report (emit evs s) = status_report s"
  by (simp_all add: emit_def)

lemma writeDraginoRegister_fields [simp]:
  "io (writeDraginoRegister a v s) = io s @ write_events a v"
  "spi_count (writeDraginoRegister a v s) = Suc (spi_count s)"
  "spi_miso (writeDraginoRegister a v s) = spi_miso s"
  "is_sx1272 (writeDraginoRegister a v s) = is_sx1272 s"
  "receivedbytes (writeDraginoRegister a v s) = receivedbytes s"
  "cp_nb_rx_rcv (writeDraginoRegister a v s) = cp_nb_rx_rcv s"
  "cp_nb_rx_ok (writeDraginoRegister a v s) = cp_nb_rx_ok s"
  "cp_up_pkt_fwd (writeDraginoRegister a v s) = cp_up_pkt_fwd s"
  "transmission_mode (writeDraginoRegister a v s) = transmission_mode s"
  "sf (writeDraginoRegister a v s) = sf s"
  "freq (writeDraginoRegister a v s) = freq s"
  "lat_fmt (writeDraginoRegister a v s) = lat_fmt s"
  "lon_fmt (writeDraginoRegister a v s) = lon_fmt s"
  "alt (writeDraginoRegister a v s) = alt s"
  "lora_snr (writeDraginoRegister a v s) = lora_snr s"
  "lora_packet (writeDraginoRegister a v s) = lora_packet s"
  "lora_packet_length (writeDraginoRegister a v s) = lora_packet_length s"
  "hwaddr (writeDraginoRegister a v s) = hwaddr s"
  "status_report (writeDraginoRegister a v s) = status_report s"
  by (simp_all add: writeDraginoRegister_def)

lemma readDraginoRegister_value [simp]:
  "fst (readDraginoRegister a s) = spi_miso s (spi_count s)"
  by (simp add: readDraginoRegister_def)

lemma readDraginoRegister_fields [simp]:
  "io (snd (readDraginoRegister a s)) = io s @ read_events a"
  "spi_count (snd (readDraginoRegister a s)) = Suc (spi_count s)"
  "spi_miso (snd (readDraginoRegister a s)) = spi_miso s"
  "is_sx1272 (snd (readDraginoRegister a s)) = is_sx1272 s"
  "receivedbytes (snd (readDraginoRegister a s)) = receivedbytes s"
  "cp_nb_rx_rcv (snd (readDraginoRegister a s)) = cp_nb_rx_rcv s"
  "cp_nb_rx_ok (snd (readDraginoRegister a s)) = cp_nb_rx_ok s"
  "cp_up_pkt_fwd (snd (readDraginoRegister a s)) = cp_up_pkt_fwd s"
  "transmission_mode (snd (readDraginoRegister a s)) = transmission_mode s"
  "sf (snd (readDraginoRegister a s)) = sf s"
  "freq (snd (readDraginoRegister a s)) = freq s"
  "lat_fmt (snd (readDraginoRegister a s)) = lat_fmt s"
  "lon_fmt (snd (readDraginoRegister a s)) = lon_fmt s"
  "alt (snd (readDraginoRegister a s)) = alt s"
  "lora_snr (snd (readDraginoRegister a s)) = lora_snr s"
  "lora_packet (snd (readDraginoRegister a s)) = lora_packet s"
  "lora_packet_length (snd (readDraginoRegister a s)) = lora_packet_length s"
  "hwaddr (snd (readDraginoRegister a s)) = hwaddr s"
  "status_report (snd (readDraginoRegister a s)) = status_report s"
  by (simp_all add: readDraginoRegister_def)

lemma read_payload_eq:
  "read_payload i k s =
     s\<lparr>lora_packet := payload_fill i k (spi_miso s) (spi_count s) (lora_packet s),
       spi_count := spi_count s + k,
       io := io s @ concat (replicate k (read_events REG_FIFO))\<rparr>"
proof (induction k arbitrary: i s)
  case 0
  have "payload_fill i 0 (spi_miso s) (spi_count s) (lora_packet s) = lora_packet s"
    by (auto simp add: payload_fill_def fun_eq_iff)
  then show ?case by simp
next
  case (Suc k)
  have pf: "payload_fill (Suc i) k (spi_miso s) (Suc (spi_count s))
          ((lora_packet s)(i := spi_miso s (spi_count s))) =
        payload_fill i (Suc k) (spi_miso s) (spi_count s) (lora_packet s)"
    by (auto simp add: payload_fill_def fun_eq_iff intro!: arg_cong [where f = "spi_miso s"])
  have r: "readDraginoRegister REG_FIFO s =
      (spi_miso s (spi_count s),
       s\<lparr>io := io s @ read_events REG_FIFO, spi_count := Suc (spi_count s)\<rparr>)"
    by (simp add: readDraginoRegister_def emit_def)
  have "read_payload i (Suc k) s =
      read_payload (Suc i) k
        (s\<lparr>io := io s @ read_events REG_FIFO, spi_count := Suc (spi_count s),
           lora_packet := (lora_packet s)(i := spi_miso s (spi_count s))\<rparr>)"
    by (simp add: r)
  also have "\<dots> =
      s\<lparr>lora_packet := payload_fill i (Suc k) (spi_miso s) (spi_count s) (lora_packet s),
        spi_count := spi_count s + Suc k,
        io := io s @ concat (replicate (Suc k) (read_events REG_FIFO))\<rparr>"
    by (subst Suc.IH) (simp add: pf)
  finally show ?case .
qed

lemma read_payload_fields [simp]:
  "io (read_payload i k s) = io s @ concat (replicate k (read_events REG_FIFO))"
  "spi_count (read_payload i k s) = spi_count s + k"
  "spi_miso (read_payload i k s) = spi_miso s"
  "is_sx1272 (read_payload i k s) = is_sx1272 s"
  "receivedbytes (read_payload i k s) = receivedbytes s"
  "cp_nb_rx_rcv (read_payload i k s) = cp_nb_rx_rcv s"
  "cp_nb_rx_ok (read_payload i k s) = cp_nb_rx_ok s"
  "cp_up_pkt_fwd (read_payload i k s) = cp_up_pkt_fwd s"
  "transmission_mode (read_payload i k s) = transmission_mode s"
  "sf (read_payload i k s) = sf s"
  "freq (read_payload i k s) = freq s"
  "lat_fmt (read_payload i k s) = lat_fmt s"
  "lon_fmt (read_payload i k s) = lon_fmt s"
  "alt (read_payload i k s) = alt s"
  "lora_snr (read_payload i k s) = lora_snr s"
  "lora_packet (read_payload i k s) = payload_fill i k (spi_miso s) (spi_count s) (lora_packet s)"
  "lora_packet_length (read_payload i k s) = lora_packet_length s"
  "hwaddr (read_payload i k s) = hwaddr s"
  "status_report (read_payload i k s) = status_report s"
  by (simp_all add: read_payload_eq)

lemma setup_pins_fields [simp]:
  "io (setup_pins m s) = io s @ pin_events @ first_pulse"
  "spi_count (setup_pins m s) = spi_count s"
  "spi_miso (setup_pins m s) = spi_miso s"
  "is_sx1272 (setup_pins m s) = is_sx1272 s"
  "receivedbytes (setup_pins m s) = receivedbytes s"
  "cp_nb_rx_rcv (setup_pins m s) = cp_nb_rx_rcv s"
  "cp_nb_rx_ok (setup_pins m s) = cp_nb_rx_ok s"
  "cp_up_pkt_fwd (setup_pins m s) = cp_up_pkt_fwd s"
  "transmission_mode (setup_pins m s) = m"
  "sf (setup_pins m s) = sf s"
  "freq (setup_pins m s) = freq s"
  "lat_fmt (setup_pins m s) = lat_fmt s"
  "lon_fmt (setup_pins m s) = lon_fmt s"
  "alt (setup_pins m s) = alt s"
  "lora_snr (setup_pins m s) = lora_snr s"
  "lora_packet (setup_pins m s) = lora_packet s"
  "lora_packet_length (setup_pins m s) = lora_packet_length s"
  "hwaddr (setup_pins m s) = hwaddr s"
  "status_report (setup_pins m s) = status_report s"
  by (simp_all add: setup_pins_def Let_def)

subsection \<open>The configuration sequence\<close>

lemma configure_modem_fields [simp]:
  "spi_miso (configure_modem s) = spi_miso s"
  "is_sx1272 (configure_modem s) = is_sx1272 s"
  "receivedbytes (configure_modem s) = receivedbytes s"
  "cp_nb_rx_rcv (configure_modem s) = cp_nb_rx_rcv s"
  "cp_nb_rx_ok (configure_modem s) = cp_nb_rx_ok s"
  "cp_up_pkt_fwd (configure_modem s) = cp_up_pkt_fwd s"
  "transmission_mode (configure_modem s) = transmission_mode s"
  "sf (configure_modem s) = sf s"
  "freq (configure_modem s) = freq s"
  "lat_fmt (configure_modem s) = lat_fmt s"
  "lon_fmt (configure_modem s) = lon_fmt s"
  "alt (configure_modem s) = alt s"
  "lora_snr (configure_modem s) = lora_snr s"
  "lora_packet (configure_modem s) = lora_packet s"
  "lora_packet_length (configure_modem s) = lora_packet_length s"
  "hwaddr (configure_modem s) = hwaddr s"
  "status_report (configure_modem s) = status_report s"
  by (simp_all add: configure_modem_def Let_def split_def)

lemma configure_mode_fields [simp]:
  "spi_miso (configure_mode h s) = spi_miso s"
  "is_sx1272 (configure_mode h s) = is_sx1272 s"
  "receivedbytes (configure_mode h s) = receivedbytes s"
  "cp_nb_rx_rcv (configure_mode h s) = cp_nb_rx_rcv s"
  "cp_nb_rx_ok (configure_mode h s) = cp_nb_rx_ok s"
  "cp_up_pkt_fwd (configure_mode h s) = cp_up_pkt_fwd s"
  "transmission_mode (configure_mode h s) = transmission_mode s"
  "sf (configure_mode h s) = sf s"
  "freq (configure_mode h s) = freq s"
  "lat_fmt (configure_mode h s) = lat_fmt s"
  "lon_fmt (configure_mode h s) = lon_fmt s"
  "alt (configure_mode h s) = alt s"
  "lora_snr (configure_mode h s) = lora_snr s"
  "lora_packet (configure_mode h s) = lora_packet s"
  "lora_packet_length (configure_mode h s) = lora_packet_length s"
  "hwaddr (configure_mode h s) = hwaddr s"
  "status_report (configure_mode h s) = status_report s"
  by (simp_all add: configure_mode_def Let_def)


lemma written_append: "written addr (xs @ ys) = written addr xs @ written addr ys"
  by (induction addr xs rule: written.induct) simp_all

lemma read_address_differs: "a AND 0x7F \<noteq> addr OR (0x80::byte)"
proof
  assume "a AND 0x7F = addr OR 0x80"
  then have "bit (a AND 0x7F) 7 = bit (addr OR 0x80) 7" by simp
  then show False by (simp add: bit_and_iff bit_or_iff)
qed

lemma written_read_events [simp]: "written addr (read_events a) = []"
  by (simp add: read_events_def read_address_differs)

lemma written_write_events:
  "written addr (write_events a v) = (if a OR 0x80 = addr OR 0x80 then [v] else [])"
  by (simp add: write_events_def)

lemma configure_modem_io:
  "\<exists>rest. io (configure_modem s) =
     io s @ write_events REG_OPMODE SX72_MODE_SLEEP @ frf_events (freq s) @ rest"
  by (simp add: configure_modem_def Let_def split_def frf_events_def)

lemma configure_mode_io: "\<exists>rest. io (configure_mode h s) = io s @ rest"
  by (simp add: configure_mode_def Let_def)

lemma configure_modem_written:
  "written REG_FRF_MSB (io (configure_modem s)) =
     written REG_FRF_MSB (io s) @ [fst (frequencyRegisters (freq s))]"
  "written REG_FRF_MID (io (configure_modem s)) =
     written REG_FRF_MID (io s) @ [fst (snd (frequencyRegisters (freq s)))]"
  "written REG_FRF_LSB (io (configure_modem s)) =
     written REG_FRF_LSB (io s) @ [snd (snd (frequencyRegisters (freq s)))]"
  by (simp_all add: configure_modem_def Let_def split_def written_append
      written_write_events reg_defs)

text \<open>The three outcomes of the detection, by the two values read.\<close>

lemma detect_variant_first:
  assumes "spi_miso s (spi_count s) = 0x22"
  shows "detect_variant s = (True, (snd (readDraginoRegister REG_VERSION s))\<lparr>is_sx1272 := True\<rparr>)"
  using assms by (simp add: detect_variant_def split_def)

lemma detect_variant_second:
  assumes "spi_miso s (spi_count s) \<noteq> 0x22" and "spi_miso s (Suc (spi_count s)) = 0x12"
  shows "detect_variant s =
     (True, (snd (readDraginoRegister REG_VERSION
               (emit second_pulse (snd (readDraginoRegister REG_VERSION s)))))
             \<lparr>is_sx1272 := False\<rparr>)"
  using assms by (simp add: detect_variant_def split_def Let_def)

lemma detect_variant_none:
  assumes "spi_miso s (spi_count s) \<noteq> 0x22" and "spi_miso s (Suc (spi_count s)) \<noteq> 0x12"
  shows "detect_variant s =
     (False, snd (readDraginoRegister REG_VERSION
               (emit second_pulse (snd (readDraginoRegister REG_VERSION s)))))"
  using assms by (simp add: detect_variant_def split_def Let_def)

lemma setup_first:
  assumes "spi_miso s (spi_count s) = 0x22"
  shows "setupDraginoLoRa h a m c p s =
     (0, configure_mode h (configure_modem
           ((snd (readDraginoRegister REG_VERSION (setup_pins m s)))\<lparr>is_sx1272 := True\<rparr>)))"
  using assms by (simp add: setupDraginoLoRa_def detect_variant_first)

lemma setup_second:
  assumes "spi_miso s (spi_count s) \<noteq> 0x22" and "spi_miso s (Suc (spi_count s)) = 0x12"
  shows "setupDraginoLoRa h a m c p s =
     (0, configure_mode h (configure_modem
           ((snd (readDraginoRegister REG_VERSION
               (emit second_pulse (snd (readDraginoRegister REG_VERSION (setup_pins m s))))))
             \<lparr>is_sx1272 := False\<rparr>)))"
  using assms by (simp add: setupDraginoLoRa_def detect_variant_second)

lemma setup_none:
  assumes "spi_miso s (spi_count s) \<noteq> 0x22" and "spi_miso s (Suc (spi_count s)) \<noteq> 0x12"
  shows "setupDraginoLoRa h a m c p s =
     (- 1, snd (readDraginoRegister REG_VERSION
               (emit second_pulse (snd (readDraginoRegister REG_VERSION (setup_pins m s))))))"
  using assms by (simp add: setupDraginoLoRa_def detect_variant_none)

lemma configured_io:
  "\<exists>rest. io (configure_mode h (configure_modem s)) =
     io s @ write_events REG_OPMODE SX72_MODE_SLEEP @ frf_events (freq s) @ rest"
proof -
  obtain r1 where 1: "io (configure_modem s) =
      io s @ write_events REG_OPMODE SX72_MODE_SLEEP @ frf_events (freq s) @ r1"
    using configure_modem_io by blast
  obtain r2 where 2: "io (configure_mode h (configure_modem s)) = io (configure_modem s) @ r2"
    using configure_mode_io by blast
  show ?thesis by (rule exI [of _ "r1 @ r2"]) (simp add: 1 2)
qed

subsection \<open>Frequency registers\<close>

text \<open>
  Claim C1, as the specification states it, fails at its own scenario: at 865200000 Hz
  the quotient is 14175436.8, the code writes the bytes of 14175436 and rounding would
  give those of 14175437.
\<close>

theorem frequency_round_counterexample:
  "frequencyRegisters 865200000 \<noteq>
     split24 (nat (round (865200000 * 2 ^ 19 / 32000000 :: real)))"
  by (simp only: frequencyRegisters_865200000 split24_rounded rounded_865200000) simp

text \<open>
  Claim C1, amended: for every 32-bit frequency the three bytes are those of the
  quotient \<open>hz * 2 ^ 19 / 32000000\<close> rounded down (the integer division of the code),
  cut to 24 bits and split into MSB, MID and LSB; the configuration writes exactly these
  bytes to the three frequency registers, and a set-up that succeeds has written them
  right after the switch to sleep mode; for 865200000 Hz they are D8 4C CC.
\<close>

theorem frequency_registers_floor:
  "frequencyRegisters hz = split24 (nat \<lfloor>real (unat hz) * 2 ^ 19 / 32000000\<rfloor>) \<and>
   written REG_FRF_MSB (io (configure_modem s)) =
     written REG_FRF_MSB (io s) @ [fst (frequencyRegisters (freq s))] \<and>
   written REG_FRF_MID (io (configure_modem s)) =
     written REG_FRF_MID (io s) @ [fst (snd (frequencyRegisters (freq s)))] \<and>
   written REG_FRF_LSB (io (configure_modem s)) =
     written REG_FRF_LSB (io s) @ [snd (snd (frequencyRegisters (freq s)))] \<and>
   (fst (setupDraginoLoRa h a m c p s) = 0 \<longrightarrow>
      (\<exists>pre post. io (snd (setupDraginoLoRa h a m c p s)) =
         io s @ pre @ write_events REG_OPMODE SX72_MODE_SLEEP @ frf_events (freq s) @ post)) \<and>
   frequencyRegisters 865200000 = (0xD8, 0x4C, 0xCC)"
proof -
  have fl: "frequencyRegisters hz = split24 (nat \<lfloor>real (unat hz) * 2 ^ 19 / 32000000\<rfloor>)"
    by (simp only: floor_frequency_word frequencyRegisters_split24)
  have stp: "\<exists>pre post. io (snd (setupDraginoLoRa h a m c p s)) =
         io s @ pre @ write_events REG_OPMODE SX72_MODE_SLEEP @ frf_events (freq s) @ post"
    if ok: "fst (setupDraginoLoRa h a m c p s) = 0"
  proof (cases "spi_miso s (spi_count s) = 0x22")
    case True
    let ?s1 = "(snd (readDraginoRegister REG_VERSION (setup_pins m s)))\<lparr>is_sx1272 := True\<rparr>"
    obtain rest where "io (configure_mode h (configure_modem ?s1)) =
        io ?s1 @ write_events REG_OPMODE SX72_MODE_SLEEP @ frf_events (freq ?s1) @ rest"
      using configured_io by blast
    then have "io (snd (setupDraginoLoRa h a m c p s)) =
        io s @ (pin_events @ first_pulse @ read_events REG_VERSION) @
        write_events REG_OPMODE SX72_MODE_SLEEP @ frf_events (freq s) @ rest"
      using True by (simp add: setup_first)
    then show ?thesis by blast
  next
    case False
    show ?thesis
    proof (cases "spi_miso s (Suc (spi_count s)) = 0x12")
      case True
      let ?s1 = "(snd (readDraginoRegister REG_VERSION
               (emit second_pulse (snd (readDraginoRegister REG_VERSION (setup_pins m s))))))
             \<lparr>is_sx1272 := False\<rparr>"
      obtain rest where "io (configure_mode h (configure_modem ?s1)) =
          io ?s1 @ write_events REG_OPMODE SX72_MODE_SLEEP @ frf_events (freq ?s1) @ rest"
        using configured_io by blast
      then have "io (snd (setupDraginoLoRa h a m c p s)) =
          io s @ (pin_events @ first_pulse @ read_events REG_VERSION @ second_pulse @
                  read_events REG_VERSION) @
          write_events REG_OPMODE SX72_MODE_SLEEP @ frf_events (freq s) @ rest"
        using False True by (simp add: setup_second)
      then show ?thesis by blast
    next
      case no: False
      then have "fst (setupDraginoLoRa h a m c p s) = - 1"
        using False by (simp add: setup_none)
      then show ?thesis using ok by simp
    qed
  qed
  show ?thesis
    using fl configure_modem_written [of s] stp frequencyRegisters_865200000
    by blast
qed

theorem frequency_registers_floor_witness:
  "fst (setupDraginoLoRa hope_example 2 1 0 ''H'' (boot_state (\<lambda>n. 0x22) (\<lambda>i. 0))) = 0 \<and>
   (\<exists>pre post. io (snd (setupDraginoLoRa hope_example 2 1 0 ''H''
                         (boot_state (\<lambda>n. 0x22) (\<lambda>i. 0)))) =
      pre @ write_events REG_OPMODE SX72_MODE_SLEEP @
      write_events REG_FRF_MSB 0xD8 @ write_events REG_FRF_MID 0x4C @
      write_events REG_FRF_LSB 0xCC @ post)"
proof -
  have ok: "fst (setupDraginoLoRa hope_example 2 1 0 ''H'' (boot_state (\<lambda>n. 0x22) (\<lambda>i. 0))) = 0"
    by (simp add: setup_first boot_state_def)
  have f: "freq (boot_state (\<lambda>n. 0x22) (\<lambda>i. 0)) = 865200000"
    and i: "io (boot_state (\<lambda>n. 0x22) (\<lambda>i. 0)) = []"
    by (simp_all add: boot_state_def)
  have e: "frf_events 865200000 =
      write_events REG_FRF_MSB 0xD8 @ write_events REG_FRF_MID 0x4C @
      write_events REG_FRF_LSB 0xCC"
    by (simp add: frf_events_def frequencyRegisters_865200000)
  have "fst (setupDraginoLoRa hope_example 2 1 0 ''H'' (boot_state (\<lambda>n. 0x22) (\<lambda>i. 0))) = 0 \<longrightarrow>
      (\<exists>pre post. io (snd (setupDraginoLoRa hope_example 2 1 0 ''H''
                         (boot_state (\<lambda>n. 0x22) (\<lambda>i. 0)))) =
         io (boot_state (\<lambda>n. 0x22) (\<lambda>i. 0)) @ pre @
         write_events REG_OPMODE SX72_MODE_SLEEP @
         frf_events (freq (boot_state (\<lambda>n. 0x22) (\<lambda>i. 0))) @ post)"
    using frequency_registers_floor
      [of 865200000 "boot_state (\<lambda>n. 0x22) (\<lambda>i. 0)" hope_example 2 1 0 "''H''"]
    by blast
  then show ?thesis using ok by (simp add: f i e)
qed

text \<open>
  Claim C9: for every frequency whose register value fits the 24 bits of the
  frequency registers, that is below 1024 MHz, which includes the whole tuning range of
  both transceivers, the frequency recomputed from the three bytes by the inverse
  formula differs from the input by less than one step of \<open>32000000 / 2 ^ 19\<close> Hz.
\<close>

theorem frequency_round_trip:
  assumes "unat hz < 1024000000"
  shows "\<bar>real (unat hz) - frequency_of_triple (frequencyRegisters hz)\<bar> < 32000000 / 2 ^ 19"
proof -
  define k where "k = unat hz * 2 ^ 19 div 32000000"
  define r where "r = unat hz * 2 ^ 19 mod 32000000"
  have kr: "unat hz * 2 ^ 19 = k * 32000000 + r"
    by (simp only: k_def r_def div_mult_mod_eq)
  have r: "r < 32000000" by (simp add: r_def)
  have "unat hz * 2 ^ 19 < 2 ^ 24 * 32000000" using assms by simp
  then have "k < 2 ^ 24" by (simp only: k_def less_mult_imp_div_less)
  then have tv: "triple_value (frequencyRegisters hz) = k"
    by (simp only: frequencyRegisters_split24 k_def [symmetric] triple_value_split24)
  have "real (unat hz * 2 ^ 19) = real (k * 32000000 + r)" by (simp only: kr)
  then have "real (unat hz) * 2 ^ 19 = real k * 32000000 + real r" by simp
  then have "real (unat hz) - real k * 32000000 / 2 ^ 19 = real r / 2 ^ 19"
    by (simp add: field_simps)
  then show ?thesis using r by (simp add: frequency_of_triple_def tv)
qed

theorem frequency_round_trip_witness:
  "unat (865200000 :: u32) < 1024000000 \<and>
   \<bar>real (unat (865200000 :: u32)) - frequency_of_triple (0xD8, 0x4C, 0xCC)\<bar>
     < 32000000 / 2 ^ 19"
  using frequency_round_trip [of 865200000]
  by (simp add: frequencyRegisters_865200000)

text \<open>The bound on the frequency is needed: at 1024 MHz the register value no longer
  fits 24 bits and the three bytes are all zero.\<close>

lemma register_overflow_at_1024_MHz:
  "frequencyRegisters 1024000000 = (0, 0, 0) \<and>
   \<not> \<bar>real (unat (1024000000 :: u32)) - frequency_of_triple (frequencyRegisters 1024000000)\<bar>
       < 32000000 / 2 ^ 19"
proof -
  have z: "frequencyRegisters 1024000000 = (0, 0, 0)"
    by (simp add: frequencyRegisters_def frf_of_def)
  show ?thesis by (simp add: z frequency_of_triple_def triple_value_def)
qed

subsection \<open>Signal-to-noise ratio\<close>

text \<open>
  Claim C3, as the specification states it, fails for the raw bytes 0xFD, 0xFE and
  0xFF: the sign bit is set and the decoded value is 0, which is not negative.
\<close>

theorem decodeSnr_sign_counterexample:
  "bit (0xFF :: byte) 7 \<and> \<not> decodeSnr 0xFF < 0"
proof -
  have b: "bit (0xFF :: byte) 7" by (simp add: byte_bit7_iff)
  show ?thesis using b by (simp add: decodeSnr_negative_branch)
qed

text \<open>
  Claim C3, amended: for every raw byte with bit 7 set the decoded value equals
  \<open>-(((~raw+1)&0xFF)>>2)\<close>, that is minus a quarter of \<open>256 - raw\<close> rounded down, and
  is not positive; it is negative exactly when the raw byte is at most 0xFC. For every
  raw byte with bit 7 clear it equals \<open>(raw&0xFF)>>2\<close> and is not negative.
\<close>

theorem decodeSnr_two_complement:
  "(bit val 7 \<longrightarrow>
      decodeSnr val = - drop_bit 2 ((NOT (uint val) + 1) AND 0xFF) \<and>
      decodeSnr val = - ((256 - uint val) div 4) \<and>
      decodeSnr val \<le> 0 \<and> (decodeSnr val < 0 \<longleftrightarrow> uint val \<le> 0xFC)) \<and>
   (\<not> bit val 7 \<longrightarrow>
      decodeSnr val = drop_bit 2 (uint val AND 0xFF) \<and>
      decodeSnr val = uint val div 4 \<and> 0 \<le> decodeSnr val)"
proof (cases "bit val 7")
  case True
  have b: "128 \<le> uint val" "uint val < 256"
    using True uint_bounded [of val] by (simp_all add: byte_bit7_iff)
  have m: "(- uint val) mod 256 = 256 - uint val"
    using b by (simp add: zmod_zminus1_eq_if)
  have f: "drop_bit 2 ((NOT (uint val) + 1) AND 0xFF) = (256 - uint val) div 4"
    by (simp add: int_not_plus1 int_and_255 m drop_bit_eq_div)
  have v: "decodeSnr val = - ((256 - uint val) div 4)"
    using True by (rule decodeSnr_negative_branch)
  have "(256 - uint val) div 4 \<ge> 0" using b by simp
  moreover have "0 < (256 - uint val) div 4 \<longleftrightarrow> uint val \<le> 0xFC"
    using b by (simp add: pos_imp_zdiv_pos_iff)
  ultimately show ?thesis using True v f by simp
next
  case False
  have b: "0 \<le> uint val" using uint_bounded [of val] by simp
  have v: "decodeSnr val = uint val div 4"
    using False by (rule decodeSnr_positive_branch)
  have f: "drop_bit 2 (uint val AND 0xFF) = uint val div 4"
    using b uint_bounded [of val] by (simp add: int_and_255 drop_bit_eq_div)
  have n: "0 \<le> uint val div 4" using b by (simp add: pos_imp_zdiv_nonneg_iff)
  show ?thesis using False v f n by simp
qed

theorem decodeSnr_two_complement_witness:
  "bit (0x80 :: byte) 7 \<and> decodeSnr 0x80 = - 32 \<and> decodeSnr 0x80 < 0 \<and>
   \<not> bit (0x7F :: byte) 7 \<and> decodeSnr 0x7F = 31"
proof -
  have a: "bit (0x80 :: byte) 7" and b: "\<not> bit (0x7F :: byte) 7"
    by (simp_all add: byte_bit7_iff)
  show ?thesis
    using a b decodeSnr_two_complement [of "0x80"] decodeSnr_two_complement [of "0x7F"]
    by simp
qed

text \<open>
  Claim C4, as the specification states it, fails for the first byte: 0x84 is the
  two's complement of 124, a quarter of which is 31, so the decoded value is -31 and
  not -1.
\<close>

theorem decodeSnr_0x84_counterexample: "decodeSnr 0x84 \<noteq> - 1"
  by (simp add: decodeSnr_def)

text \<open>
  Claim C4, amended: decoding the raw byte 0x84 yields -31, and decoding the raw byte
  0x08 yields 2.
\<close>

theorem decodeSnr_scenarios: "decodeSnr 0x84 = - 31 \<and> decodeSnr 0x08 = 2"
  by (simp add: decodeSnr_def)

subsection \<open>Detection of the transceiver\<close>



subsection \<open>Formatted numbers\<close>

lemma dec_length:
  "0 < k \<Longrightarrow> n < 10 ^ k \<Longrightarrow> length (dec n) \<le> k"
proof (induction k arbitrary: n)
  case 0
  then show ?case by simp
next
  case (Suc k)
  show ?case
  proof (cases "n < 10")
    case True
    then show ?thesis by (subst dec.simps) simp
  next
    case False
    then have k: "0 < k" using Suc.prems by (cases k) simp_all
    have "n div 10 < 10 ^ k" using Suc.prems by (simp add: less_mult_imp_div_less)
    then have "length (dec (n div 10)) \<le> k" using k Suc.IH by blast
    then show ?thesis using False by (subst dec.simps) simp
  qed
qed

lemma dec_nonempty: "0 < length (dec n)"
  by (subst dec.simps) simp

lemma fmt_u_u32: "length (fmt_u (unat (w :: u32))) \<le> 10"
proof -
  have "unat w < 2 ^ 32" using unsigned_less [of w] by simp
  then have "unat w < 10 ^ 10" by simp
  then show ?thesis unfolding fmt_u_def by (intro dec_length) simp_all
qed

lemma fmt_u_byte: "length (fmt_u (unat (w :: byte))) \<le> 3"
proof -
  have "unat w < 2 ^ 8" using unsigned_less [of w] by simp
  then have "unat w < 10 ^ 3" by simp
  then show ?thesis unfolding fmt_u_def by (intro dec_length) simp_all
qed

lemma fmt_u_0: "fmt_u 0 = ''0''"
  by (simp add: fmt_u_def dec.simps)

lemma fmt_d_length:
  assumes "- (10 ^ k) < i" and "i < 10 ^ k" and "0 < k"
  shows "length (fmt_d i) \<le> Suc k"
proof (cases "i < 0")
  case True
  have "nat (- i) < 10 ^ k" using assms True by (simp add: nat_less_iff)
  then have "length (dec (nat (- i))) \<le> k" using assms(3) by (intro dec_length)
  then show ?thesis using True by (simp add: fmt_d_def)
next
  case False
  have "nat i < 10 ^ k" using assms False by (simp add: nat_less_iff)
  then have "length (dec (nat i)) \<le> k" using assms(3) by (intro dec_length)
  then show ?thesis using False by (simp add: fmt_d_def)
qed

lemma fmt_d_i32: "length (fmt_d (sint (w :: i32))) \<le> 11"
proof -
  have "- (2 ^ 31) \<le> sint w" "sint w < 2 ^ 31"
    using sint_ge [of w] sint_lt [of w] by simp_all
  then have "- (10 ^ 10) < sint w" "sint w < 10 ^ 10" by simp_all
  then show ?thesis using fmt_d_length [of 10 "sint w"] by simp
qed

lemma fmt_freq_length: "length (fmt_freq hz) \<le> 11"
proof -
  have "unat hz < 2 ^ 32" using unsigned_less [of hz] by simp
  then have "unat hz div 1000000 < 10 ^ 4" by (simp add: less_mult_imp_div_less)
  then have a: "length (dec (unat hz div 1000000)) \<le> 4" by (intro dec_length) simp_all
  have "unat hz mod 1000000 < 10 ^ 6" by simp
  then have b: "length (dec (unat hz mod 1000000)) \<le> 6" by (intro dec_length) simp_all
  show ?thesis using a b by (simp add: fmt_freq_def)
qed

lemma decodeSnr_range: "- 32 \<le> decodeSnr val \<and> decodeSnr val \<le> 63"
proof (cases "bit val 7")
  case True
  have b: "128 \<le> uint val" "uint val < 256"
    using True uint_bounded [of val] by (simp_all add: byte_bit7_iff)
  have "(256 - uint val) div 4 \<le> 128 div 4" using b by (intro zdiv_mono1) simp_all
  moreover have "0 \<le> (256 - uint val) div 4" using b by (simp add: pos_imp_zdiv_nonneg_iff)
  ultimately show ?thesis by (simp add: decodeSnr_negative_branch [OF True])
next
  case False
  have b: "0 \<le> uint val" "uint val < 256" using uint_bounded [of val] by simp_all
  have "uint val div 4 \<le> 255 div 4" using b by (intro zdiv_mono1) simp_all
  moreover have "0 \<le> uint val div 4" using b by (simp add: pos_imp_zdiv_nonneg_iff)
  ultimately show ?thesis by (simp add: decodeSnr_positive_branch [OF False])
qed

lemma decodeRssi_range: "- 157 \<le> decodeRssi raw v \<and> decodeRssi raw v \<le> 116"
proof -
  have b: "0 \<le> uint raw" "uint raw < 256" using uint_bounded [of raw] by simp_all
  show ?thesis using b by (simp add: decodeRssi_def rssicorr_def)
qed

subsection \<open>Writes into a buffer\<close>

lemma length_bytes_of [simp]: "length (bytes_of txt) = length txt"
  by (simp add: bytes_of_def)

lemma region_length [simp]: "length (region b lo hi) = hi - lo"
  by (simp add: region_def)

lemma region_append:
  "lo \<le> mid \<Longrightarrow> mid \<le> hi \<Longrightarrow> region b lo hi = region b lo mid @ region b mid hi"
proof -
  assume a: "lo \<le> mid" "mid \<le> hi"
  have "[lo..<mid + (hi - mid)] = [lo..<mid] @ [mid..<mid + (hi - mid)]"
    using a(1) by (rule upt_add_eq_append)
  then have "[lo..<hi] = [lo..<mid] @ [mid..<hi]" using a(2) by simp
  then show ?thesis by (simp add: region_def)
qed

lemma region_cong:
  "(\<And>i. lo \<le> i \<Longrightarrow> i < hi \<Longrightarrow> b i = b' i) \<Longrightarrow> region b lo hi = region b' lo hi"
  by (simp add: region_def)

lemma put_bytes_below: "i < off \<Longrightarrow> put_bytes b off xs i = b i"
  by (simp add: put_bytes_def)

lemma region_put_bytes_written:
  "n \<le> length xs \<Longrightarrow> region (put_bytes b off xs) off (off + n) = take n xs"
  by (rule nth_equalityI) (simp_all add: region_def put_bytes_def)

lemma region_put_bytes:
  assumes "lo \<le> off" and "n \<le> length xs"
  shows "region (put_bytes b off xs) lo (off + n) = region b lo off @ take n xs"
proof -
  have "region (put_bytes b off xs) lo (off + n) =
      region (put_bytes b off xs) lo off @ region (put_bytes b off xs) off (off + n)"
    using assms by (intro region_append) simp_all
  moreover have "region (put_bytes b off xs) lo off = region b lo off"
    by (rule region_cong) (simp add: put_bytes_below)
  ultimately show ?thesis using assms by (simp add: region_put_bytes_written)
qed

lemma region_store:
  assumes "lo \<le> idx"
  shows "region (b(idx := c)) lo (Suc idx) = region b lo idx @ [c]"
proof -
  have "region (b(idx := c)) lo (Suc idx) =
      region (b(idx := c)) lo idx @ region (b(idx := c)) idx (Suc idx)"
    using assms by (intro region_append) simp_all
  moreover have "region (b(idx := c)) lo idx = region b lo idx"
    by (rule region_cong) simp
  moreover have "region (b(idx := c)) idx (Suc idx) = [c]"
    by (simp add: region_def)
  ultimately show ?thesis by simp
qed

text \<open>A command writes at or above the running index only, and never moves it back.\<close>

lemma wr_below:
  "i < idx \<Longrightarrow> fst (wr cap c (b, idx)) i = b i"
  by (cases c) (simp_all add: put_bytes_below Let_def)

lemma wr_index: "idx \<le> snd (wr cap c (b, idx))"
  by (cases c) (simp_all add: Let_def)

lemma compose_below_index:
  "i < idx \<Longrightarrow> fst (compose cap cmds (b, idx)) i = b i \<and> idx \<le> snd (compose cap cmds (b, idx))"
proof (induction cmds arbitrary: b idx)
  case Nil
  then show ?case by (simp add: compose_def)
next
  case (Cons c cmds)
  obtain b1 idx1 where w: "wr cap c (b, idx) = (b1, idx1)" by (cases "wr cap c (b, idx)")
  have 1: "b1 i = b i" using wr_below [of i idx cap c b] Cons.prems w by simp
  have 2: "idx \<le> idx1" using wr_index [of idx cap c b] w by simp
  have "i < idx1" using Cons.prems 2 by simp
  then have "fst (compose cap cmds (b1, idx1)) i = b1 i \<and> idx1 \<le> snd (compose cap cmds (b1, idx1))"
    by (rule Cons.IH)
  then show ?case using 1 2 w by (simp add: compose_def)
qed

text \<open>A command that fits is written in full.\<close>

lemma size_t_fits:
  assumes "idx \<le> cap" and "cap < 2 ^ 32"
  shows "size_t (int cap - int idx) = cap - idx"
proof -
  have "0 \<le> int cap - int idx" "int cap - int idx < 2 ^ 32" using assms by simp_all
  then have "(int cap - int idx) mod 2 ^ 32 = int cap - int idx" by simp
  then show ?thesis using assms by (simp add: size_t_def)
qed

lemma wr_exact:
  assumes "wr_ok c" and "idx + length (wr_text c) < cap" and "cap < 2 ^ 32" and "lo \<le> idx"
  shows "snd (wr cap c (b, idx)) = idx + length (wr_text c) \<and>
         region (fst (wr cap c (b, idx))) lo (idx + length (wr_text c)) =
           region b lo idx @ wr_text c"
proof (cases c)
  case (Memcpy lit n)
  define xs where "xs = take n (bytes_of lit @ [0])"
  have n: "n \<le> length (bytes_of lit @ [0])" using assms(1) Memcpy by simp
  then have l: "length xs = n" by (simp only: xs_def length_take min_absorb2)
  have t: "wr_text c = xs" and w: "wr cap c (b, idx) = (put_bytes b idx xs, idx + n)"
    using Memcpy by (simp_all add: xs_def)
  have "region (put_bytes b idx xs) lo (idx + n) = region b lo idx @ take n xs"
    using assms(4) l by (intro region_put_bytes) simp_all
  then have "region (put_bytes b idx xs) lo (idx + n) = region b lo idx @ xs"
    using l by simp
  then show ?thesis by (simp add: t w l)
next
  case (Store x)
  then show ?thesis using assms(4) by (simp add: region_store)
next
  case (Snprintf str)
  have fit: "idx + length str < cap" using assms(2) Snprintf by simp
  then have sz: "size_t (int cap - int idx) = cap - idx"
    using assms(3) by (intro size_t_fits) simp_all
  have tk: "take (cap - idx - 1) (bytes_of str) = bytes_of str" using fit by simp
  have "region (put_bytes b idx (bytes_of str @ [0])) lo (idx + length str) =
      region b lo idx @ take (length str) (bytes_of str @ [0])"
    using assms(4) by (intro region_put_bytes) simp_all
  then show ?thesis using Snprintf fit by (simp add: Let_def sz tk)
qed

lemma compose_exact:
  assumes "list_all wr_ok cmds" and "idx + length (cmds_text cmds) < cap" and "cap < 2 ^ 32"
    and "lo \<le> idx"
  shows "snd (compose cap cmds (b, idx)) = idx + length (cmds_text cmds) \<and>
         region (fst (compose cap cmds (b, idx))) lo (idx + length (cmds_text cmds)) =
           region b lo idx @ cmds_text cmds"
  using assms
proof (induction cmds arbitrary: b idx)
  case Nil
  then show ?case by (simp add: compose_def cmds_text_def)
next
  case (Cons c cmds)
  obtain b1 idx1 where w: "wr cap c (b, idx) = (b1, idx1)" by (cases "wr cap c (b, idx)")
  have t: "cmds_text (c # cmds) = wr_text c @ cmds_text cmds" by (simp add: cmds_text_def)
  have "snd (wr cap c (b, idx)) = idx + length (wr_text c) \<and>
        region (fst (wr cap c (b, idx))) lo (idx + length (wr_text c)) = region b lo idx @ wr_text c"
    using Cons.prems by (intro wr_exact) (simp_all add: t)
  then have i1: "idx1 = idx + length (wr_text c)"
    and r1: "region b1 lo idx1 = region b lo idx @ wr_text c"
    using w by simp_all
  have ih: "snd (compose cap cmds (b1, idx1)) = idx1 + length (cmds_text cmds) \<and>
        region (fst (compose cap cmds (b1, idx1))) lo (idx1 + length (cmds_text cmds)) =
          region b1 lo idx1 @ cmds_text cmds"
    using Cons.prems by (intro Cons.IH) (simp_all add: t i1)
  have e: "idx1 + length (cmds_text cmds) = idx + length (cmds_text (c # cmds))"
    by (simp add: i1 t)
  have s: "compose cap (c # cmds) (b, idx) = compose cap cmds (b1, idx1)"
    using w by (simp add: compose_def)
  have "region (fst (compose cap cmds (b1, idx1))) lo (idx + length (cmds_text (c # cmds))) =
      region b1 lo idx1 @ cmds_text cmds"
    using ih by (simp only: e [symmetric])
  also have "\<dots> = region b lo idx @ cmds_text (c # cmds)"
    by (simp only: r1 t append_assoc)
  finally have r: "region (fst (compose cap cmds (b1, idx1))) lo
      (idx + length (cmds_text (c # cmds))) = region b lo idx @ cmds_text (c # cmds)" .
  have "snd (compose cap cmds (b1, idx1)) = idx + length (cmds_text (c # cmds))"
    using ih by (simp only: e)
  then show ?case using r by (simp only: s)
qed

subsection \<open>One poll\<close>

lemma receivePkt_result [simp]: "fst (receivePkt s) = (\<not> crc_error s)"
  by (simp add: receivePkt_def Let_def split_def crc_error_def)

lemma receivePkt_fields [simp]:
  "spi_count (snd (receivePkt s)) =
     (if crc_error s then spi_count s + 3 else spi_count s + 5 + unat (rx_len s))"
  "spi_miso (snd (receivePkt s)) = spi_miso s"
  "is_sx1272 (snd (receivePkt s)) = is_sx1272 s"
  "receivedbytes (snd (receivePkt s)) =
     (if crc_error s then receivedbytes s else rx_len s)"
  "cp_nb_rx_rcv (snd (receivePkt s)) =
     cp_nb_rx_rcv s + 1"
  "cp_nb_rx_ok (snd (receivePkt s)) =
     (if crc_error s then cp_nb_rx_ok s else cp_nb_rx_ok s + 1)"
  "cp_up_pkt_fwd (snd (receivePkt s)) = cp_up_pkt_fwd s"
  "transmission_mode (snd (receivePkt s)) = transmission_mode s"
  "sf (snd (receivePkt s)) = sf s"
  "freq (snd (receivePkt s)) = freq s"
  "lat_fmt (snd (receivePkt s)) = lat_fmt s"
  "lon_fmt (snd (receivePkt s)) = lon_fmt s"
  "alt (snd (receivePkt s)) = alt s"
  "lora_snr (snd (receivePkt s)) = lora_snr s"
  "lora_packet (snd (receivePkt s)) =
     (if crc_error s then lora_packet s
      else payload_fill 0 (unat (rx_len s)) (spi_miso s) (spi_count s + 5) (lora_packet s))"
  "lora_packet_length (snd (receivePkt s)) = lora_packet_length s"
  "hwaddr (snd (receivePkt s)) = hwaddr s"
  "status_report (snd (receivePkt s)) = status_report s"
  by (simp_all add: receivePkt_def Let_def split_def crc_error_def rx_len_def
      eval_nat_numeral)


text \<open>The three ways a poll ends.\<close>

lemma poll_idle:
  assumes "level \<noteq> 1"
  shows "receiveDraginoPacket level r1 r2 sec usec buf s =
     (1, None, emit [DigitalRead dio0 level] s)"
  using assms by (simp add: receiveDraginoPacket_def Let_def)

lemma poll_crc_error:
  assumes "crc_error s"
  shows "receiveDraginoPacket 1 r1 r2 sec usec buf s =
     (1, None, snd (receivePkt (emit [DigitalRead dio0 1] s)))"
  using assms by (simp add: receiveDraginoPacket_def Let_def split_def crc_error_def)

lemma poll_frame:
  assumes "\<not> crc_error s"
  shows "receiveDraginoPacket 1 r1 r2 sec usec buf s =
     (0,
      Some ((fst (compose TX_BUFF_SIZE (rx_cmds sec usec s)
                   (put_header buf (hwaddr s) r1 r2, 12)))
              (snd (compose TX_BUFF_SIZE (rx_cmds sec usec s)
                     (put_header buf (hwaddr s) r1 r2, 12)) := 0),
            snd (compose TX_BUFF_SIZE (rx_cmds sec usec s)
                   (put_header buf (hwaddr s) r1 r2, 12))),
      (after_reads s)\<lparr>lora_packet_length := uint (rx_len s)\<rparr>)"
proof -
  have c: "\<not> crc_error (emit [DigitalRead dio0 1] s)"
    and l: "rx_len (emit [DigitalRead dio0 1] s) = rx_len s"
    using assms by (simp_all add: crc_error_def rx_len_def)
  show ?thesis
    by (simp add: receiveDraginoPacket_def Let_def split_def c l after_reads_def rx_cmds_def
        rx_snr_raw_def rx_rssi_raw_def eval_nat_numeral)
qed

lemma after_reads_fields [simp]:
  "spi_miso (after_reads s) = spi_miso s"
  "is_sx1272 (after_reads s) = is_sx1272 s"
  "receivedbytes (after_reads s) =
     (if crc_error s then receivedbytes s else rx_len s)"
  "cp_nb_rx_rcv (after_reads s) =
     cp_nb_rx_rcv s + 1"
  "cp_nb_rx_ok (after_reads s) =
     (if crc_error s then cp_nb_rx_ok s else cp_nb_rx_ok s + 1)"
  "cp_up_pkt_fwd (after_reads s) = cp_up_pkt_fwd s"
  "transmission_mode (after_reads s) = transmission_mode s"
  "sf (after_reads s) = sf s"
  "freq (after_reads s) = freq s"
  "lat_fmt (after_reads s) = lat_fmt s"
  "lon_fmt (after_reads s) = lon_fmt s"
  "alt (after_reads s) = alt s"
  "lora_snr (after_reads s) =
     decodeSnr (rx_snr_raw s)"
  "lora_packet (after_reads s) =
     (if crc_error s then lora_packet s
      else payload_fill 0 (unat (rx_len s)) (spi_miso s) (spi_count s + 5) (lora_packet s))"
  "lora_packet_length (after_reads s) = lora_packet_length s"
  "hwaddr (after_reads s) = hwaddr s"
  "status_report (after_reads s) = status_report s"
  by (simp_all add: after_reads_def crc_error_def rx_len_def)

lemma sendstat_fields [simp]:
  "io (snd (sendstat r1 r2 ts s)) = io s"
  "spi_count (snd (sendstat r1 r2 ts s)) = spi_count s"
  "spi_miso (snd (sendstat r1 r2 ts s)) = spi_miso s"
  "is_sx1272 (snd (sendstat r1 r2 ts s)) = is_sx1272 s"
  "receivedbytes (snd (sendstat r1 r2 ts s)) = receivedbytes s"
  "cp_nb_rx_rcv (snd (sendstat r1 r2 ts s)) = cp_nb_rx_rcv s"
  "cp_nb_rx_ok (snd (sendstat r1 r2 ts s)) = cp_nb_rx_ok s"
  "cp_up_pkt_fwd (snd (sendstat r1 r2 ts s)) = cp_up_pkt_fwd s"
  "transmission_mode (snd (sendstat r1 r2 ts s)) = transmission_mode s"
  "sf (snd (sendstat r1 r2 ts s)) = sf s"
  "freq (snd (sendstat r1 r2 ts s)) = freq s"
  "lat_fmt (snd (sendstat r1 r2 ts s)) = lat_fmt s"
  "lon_fmt (snd (sendstat r1 r2 ts s)) = lon_fmt s"
  "alt (snd (sendstat r1 r2 ts s)) = alt s"
  "lora_snr (snd (sendstat r1 r2 ts s)) = lora_snr s"
  "lora_packet (snd (sendstat r1 r2 ts s)) = lora_packet s"
  "lora_packet_length (snd (sendstat r1 r2 ts s)) = lora_packet_length s"
  "hwaddr (snd (sendstat r1 r2 ts s)) = hwaddr s"
  by (simp_all add: sendstat_def Let_def split_def)


subsection \<open>Size of the uplink body\<close>

lemma datr_cmd_ok: "wr_ok (datr_cmd sfv) \<and> length (wr_text (datr_cmd sfv)) \<le> 13"
  by (simp add: datr_cmd_def)

lemma rx_cmds_ok: "list_all wr_ok (rx_cmds sec usec s)"
  by (simp add: rx_cmds_def uplink_cmds_def datr_cmd_ok)

lemma rx_cmds_length: "length (cmds_text (rx_cmds sec usec s)) \<le> 167"
proof -
  define tmst where "tmst = (word_of_int (sec * 1000000 + usec) :: u32)"
  have 1: "length (fmt_u (unat tmst)) \<le> 10" by (rule fmt_u_u32)
  have 2: "length (fmt_freq (freq s)) \<le> 11" by (rule fmt_freq_length)
  have 3: "length (wr_text (datr_cmd (sf s))) \<le> 13" using datr_cmd_ok by blast
  have "- (10 ^ 3) < decodeSnr (rx_snr_raw s)" "decodeSnr (rx_snr_raw s) < 10 ^ 3"
    using decodeSnr_range [of "rx_snr_raw s"] by simp_all
  then have 4: "length (fmt_d (decodeSnr (rx_snr_raw s))) \<le> 4"
    using fmt_d_length [of 3 "decodeSnr (rx_snr_raw s)"] by simp
  have "- (10 ^ 3) < decodeRssi (rx_rssi_raw s) (is_sx1272 s)"
    "decodeRssi (rx_rssi_raw s) (is_sx1272 s) < 10 ^ 3"
    using decodeRssi_range [of "rx_rssi_raw s" "is_sx1272 s"] by simp_all
  then have 5: "length (fmt_d (decodeRssi (rx_rssi_raw s) (is_sx1272 s))) \<le> 4"
    using fmt_d_length [of 3 "decodeRssi (rx_rssi_raw s) (is_sx1272 s)"] by simp
  have 6: "length (fmt_u (unat (rx_len s))) \<le> 3" by (rule fmt_u_byte)
  show ?thesis
    using 1 2 3 4 5 6
    by (simp add: rx_cmds_def uplink_cmds_def cmds_text_def tmst_def fmt_u_0)
qed

lemma upt_0_12: "[0..<12] = [0, 1, 2, 3, 4, 5, 6, 7, 8, 9, 10, 11]"
  by (simp add: upt_rec)

lemma put_header_region: "region (put_header b hw r1 r2) 0 12 = wire_header hw r1 r2"
  by (simp add: region_def put_header_def wire_header_def gateway_id_def Let_def upt_0_12)

lemma region_take_header:
  assumes "\<And>i. i < 12 \<Longrightarrow> b i = put_header b0 hw r1 r2 i"
  shows "region b 0 12 = wire_header hw r1 r2 \<and> region b 4 12 = gateway_id hw"
proof -
  have a: "region b 0 12 = region (put_header b0 hw r1 r2) 0 12"
    by (rule region_cong) (simp add: assms)
  then have h: "region b 0 12 = wire_header hw r1 r2" by (simp only: put_header_region)
  have "region b 0 12 = region b 0 4 @ region b 4 12" by (intro region_append) simp_all
  then have "drop 4 (region b 0 12) = region b 4 12" by simp
  then show ?thesis using h by (simp add: wire_header_def)
qed

text \<open>The composed uplink frame: header, then the whole body, then a zero byte.\<close>

lemma uplink_frame_complete:
  fixes buf :: cbuf and sec usec r1 r2 :: int and s :: gw
  defines "r \<equiv> compose TX_BUFF_SIZE (rx_cmds sec usec s) (put_header buf (hwaddr s) r1 r2, 12)"
  shows "snd r = 12 + length (cmds_text (rx_cmds sec usec s))"
    and "snd r < TX_BUFF_SIZE"
    and "region ((fst r)(snd r := 0)) 0 (snd r) =
           wire_header (hwaddr s) r1 r2 @ cmds_text (rx_cmds sec usec s)"
    and "region ((fst r)(snd r := 0)) 4 12 = gateway_id (hwaddr s)"
proof -
  let ?n = "length (cmds_text (rx_cmds sec usec s))"
  let ?h = "put_header buf (hwaddr s) r1 r2"
  have len: "?n \<le> 167" by (rule rx_cmds_length)
  have ex: "snd r = 12 + ?n \<and> region (fst r) 0 (12 + ?n) = region ?h 0 12 @ cmds_text (rx_cmds sec usec s)"
    unfolding r_def using len
    by (intro compose_exact rx_cmds_ok) (simp_all add: TX_BUFF_SIZE_def)
  then show n: "snd r = 12 + ?n" by simp
  show "snd r < TX_BUFF_SIZE" using n len by (simp add: TX_BUFF_SIZE_def)
  have "region ((fst r)(snd r := 0)) 0 (snd r) = region (fst r) 0 (snd r)"
    by (rule region_cong) simp
  then show "region ((fst r)(snd r := 0)) 0 (snd r) =
      wire_header (hwaddr s) r1 r2 @ cmds_text (rx_cmds sec usec s)"
    using ex by (simp add: put_header_region)
  have "fst r i = ?h i" if "i < 12" for i
    unfolding r_def using that compose_below_index [of i 12] by simp
  then have "((fst r)(snd r := 0)) i = ?h i" if "i < 12" for i
    using that n by simp
  then show "region ((fst r)(snd r := 0)) 4 12 = gateway_id (hwaddr s)"
    using region_take_header [of "(fst r)(snd r := 0)" buf "hwaddr s" r1 r2] by simp
qed

subsection \<open>The status frame\<close>

lemma stat_json_length:
  assumes "length ts \<le> 23" and "length la \<le> 46" and "length lo \<le> 46"
  shows "length (stat_json ts la lo al rxnb rxok rxfw) \<le> 305"
proof -
  have 1: "length (fmt_d (sint al)) \<le> 11" by (rule fmt_d_i32)
  have 2: "length (fmt_u (unat rxnb)) \<le> 10" "length (fmt_u (unat rxok)) \<le> 10"
    "length (fmt_u (unat rxfw)) \<le> 10" by (rule fmt_u_u32)+
  show ?thesis using assms 1 2
    by (simp add: stat_json_def fmt_u_0 platform_def email_def description_def)
qed

lemma sendstat_complete:
  assumes "length ts \<le> 23" and "length (lat_fmt s) \<le> 46" and "length (lon_fmt s) \<le> 46"
  defines "body \<equiv> stat_json ts (lat_fmt s) (lon_fmt s) (alt s) (cp_nb_rx_rcv s)
                     (cp_nb_rx_ok s) (cp_up_pkt_fwd s)"
  shows "fst (sendstat r1 r2 ts s) = 12 + length body"
    and "fst (sendstat r1 r2 ts s) < STATUS_SIZE"
    and "region (status_report (snd (sendstat r1 r2 ts s))) 0 (fst (sendstat r1 r2 ts s)) =
           wire_header (hwaddr s) r1 r2 @ bytes_of body"
    and "status_report (snd (sendstat r1 r2 ts s)) (fst (sendstat r1 r2 ts s)) = 0"
proof -
  let ?h = "put_header (status_report s) (hwaddr s) r1 r2"
  let ?r = "compose STATUS_SIZE [Snprintf body] (?h, 12)"
  have len: "length body \<le> 305" unfolding body_def using assms(1-3) by (rule stat_json_length)
  have t: "cmds_text [Snprintf body] = bytes_of body" by (simp add: cmds_text_def)
  have "snd ?r = 12 + length (cmds_text [Snprintf body]) \<and>
        region (fst ?r) 0 (12 + length (cmds_text [Snprintf body])) =
          region ?h 0 12 @ cmds_text [Snprintf body]"
    using len by (intro compose_exact) (simp_all add: STATUS_SIZE_def t)
  then have n: "snd ?r = 12 + length body"
    and r: "region (fst ?r) 0 (12 + length body) = wire_header (hwaddr s) r1 r2 @ bytes_of body"
    by (simp_all add: t put_header_region)
  have f: "fst (sendstat r1 r2 ts s) = snd ?r"
    and b: "status_report (snd (sendstat r1 r2 ts s)) = (fst ?r)(snd ?r := 0)"
    by (simp_all add: sendstat_def Let_def split_def body_def)
  show "fst (sendstat r1 r2 ts s) = 12 + length body" by (simp only: f n)
  show "fst (sendstat r1 r2 ts s) < STATUS_SIZE"
    using len by (simp only: f n) (simp add: STATUS_SIZE_def)
  have "region ((fst ?r)(snd ?r := 0)) 0 (snd ?r) = region (fst ?r) 0 (snd ?r)"
    by (rule region_cong) simp
  then show "region (status_report (snd (sendstat r1 r2 ts s))) 0 (fst (sendstat r1 r2 ts s)) =
      wire_header (hwaddr s) r1 r2 @ bytes_of body"
    using r by (simp only: f b n)
  show "status_report (snd (sendstat r1 r2 ts s)) (fst (sendstat r1 r2 ts s)) = 0"
    by (simp only: f b) simp
qed

lemma sendstat_header:
  "region (status_report (snd (sendstat r1 r2 ts s))) 4 12 = gateway_id (hwaddr s)"
proof -
  let ?h = "put_header (status_report s) (hwaddr s) r1 r2"
  let ?r = "compose STATUS_SIZE
      [Snprintf (stat_json ts (lat_fmt s) (lon_fmt s) (alt s) (cp_nb_rx_rcv s)
         (cp_nb_rx_ok s) (cp_up_pkt_fwd s))] (?h, 12)"
  have b: "status_report (snd (sendstat r1 r2 ts s)) = (fst ?r)(snd ?r := 0)"
    by (simp add: sendstat_def Let_def split_def)
  have lo: "fst ?r i = ?h i \<and> 12 \<le> snd ?r" if "i < 12" for i
    using that by (rule compose_below_index)
  have "((fst ?r)(snd ?r := 0)) i = ?h i" if "i < 12" for i
    using that lo [OF that] by simp
  then show ?thesis
    using region_take_header [of "(fst ?r)(snd ?r := 0)" "status_report s" "hwaddr s" r1 r2]
    by (simp only: b)
qed

lemma poll_frame_header:
  "region ((fst (compose TX_BUFF_SIZE cmds (put_header buf hw r1 r2, 12)))
             (snd (compose TX_BUFF_SIZE cmds (put_header buf hw r1 r2, 12)) := 0)) 4 12 =
     gateway_id hw"
proof -
  let ?h = "put_header buf hw r1 r2"
  let ?r = "compose TX_BUFF_SIZE cmds (?h, 12)"
  have lo: "fst ?r i = ?h i \<and> 12 \<le> snd ?r" if "i < 12" for i
    using that by (rule compose_below_index)
  have "((fst ?r)(snd ?r := 0)) i = ?h i" if "i < 12" for i
    using that lo [OF that] by simp
  then show ?thesis
    using region_take_header [of "(fst ?r)(snd ?r := 0)" buf hw r1 r2] by simp
qed

subsection \<open>Counting received packets\<close>

text \<open>The write commands of the encoder spell out the body of the protocol.\<close>

lemma datr_text:
  \<open>wr_text (datr_cmd sfv) = bytes_of ('',"datr":"SF'' @ sf_text sfv)\<close>
proof -
  consider "sfv = 7" | "sfv = 8" | "sfv = 9" | "sfv = 10" | "sfv = 11" | "sfv = 12"
    | "sfv < 7 \<or> 12 < sfv" by linarith
  then show ?thesis
    by cases
      (simp_all add: datr_cmd_def sf_text_def SF7_def SF8_def SF9_def SF10_def SF11_def
        SF12_def dec.simps bytes_of_def byte_of_char_def)
qed

lemma uplink_cmds_text:
  "cmds_text (uplink_cmds tmst hz sfv snr rssi len) =
     bytes_of (uplink_json tmst hz sfv snr rssi len)"
proof -
  have \<open>cmds_text (uplink_cmds tmst hz sfv snr rssi len) =
      bytes_of ''{"rxpk":[{"tmst":'' @ bytes_of (dec (unat tmst)) @
      bytes_of '',"chan":0,"rfch":0,"freq":'' @ bytes_of (fmt_freq hz) @
      bytes_of '',"stat":1,"modu":"LORA"'' @ wr_text (datr_cmd sfv) @
      bytes_of ''BW125","codr":"4/5","lsnr":'' @ bytes_of (fmt_d snr) @
      bytes_of '',"rssi":'' @ bytes_of (fmt_d rssi) @ bytes_of '',"size":'' @
      bytes_of (dec (unat len)) @ bytes_of '',"data":""}]}''\<close>
    by (simp add: cmds_text_def uplink_cmds_def fmt_u_def dec.simps bytes_of_def byte_of_char_def)
  also have \<open>\<dots> = bytes_of (uplink_json tmst hz sfv snr rssi len)\<close>
    by (simp add: datr_text uplink_json_def bytes_of_def)
  finally show ?thesis .
qed

lemma rx_cmds_text:
  "cmds_text (rx_cmds sec usec s) =
     bytes_of (uplink_json (word_of_int (sec * 1000000 + usec)) (freq s) (sf s)
       (decodeSnr (rx_snr_raw s)) (decodeRssi (rx_rssi_raw s) (is_sx1272 s)) (rx_len s))"
  by (simp only: rx_cmds_def uplink_cmds_text)

text \<open>
  Claim C5: in every poll that finds the line \<^verbatim>\<open>dio0\<close> asserted, the counter of
  received packets goes up by one; if the CRC-error bit (0x20) is set in the IRQ flags
  read, the counter of accepted packets keeps its value, no frame is composed and the
  payload buffer is left as it was; if it is clear, the counter of accepted packets goes
  up by one and one frame is composed: the 12-byte header, then the whole uplink body
  with the time stamp, the frequency, the spreading factor, the decoded SNR and RSSI and
  the byte count of this packet, then a zero byte, inside the buffer; and the payload,
  its length and the SNR are stored. The counters are 32-bit and wrap around.
\<close>

theorem poll_counts:
  "case receiveDraginoPacket 1 r1 r2 sec usec buf s of
     (ret, frame, s') \<Rightarrow>
       cp_nb_rx_rcv s' = cp_nb_rx_rcv s + 1 \<and>
       (if crc_error s
        then cp_nb_rx_ok s' = cp_nb_rx_ok s \<and> frame = None \<and> ret = 1 \<and>
             lora_packet s' = lora_packet s
        else cp_nb_rx_ok s' = cp_nb_rx_ok s + 1 \<and> ret = 0 \<and>
             (let body = uplink_json (word_of_int (sec * 1000000 + usec)) (freq s) (sf s)
                           (decodeSnr (rx_snr_raw s))
                           (decodeRssi (rx_rssi_raw s) (is_sx1272 s)) (rx_len s)
              in \<exists>b n. frame = Some (b, n) \<and> n = 12 + length body \<and> n < TX_BUFF_SIZE \<and>
                   region b 0 n =
                     [PROTOCOL_VERSION, word_of_int r1, word_of_int r2, PKT_PUSH_DATA,
                      hwaddr s 0, hwaddr s 1, hwaddr s 2, 0xFF, 0xFF,
                      hwaddr s 3, hwaddr s 4, hwaddr s 5] @ bytes_of body \<and>
                   b n = 0) \<and>
             receivedbytes s' = rx_len s \<and> lora_packet_length s' = uint (rx_len s) \<and>
             lora_snr s' = decodeSnr (rx_snr_raw s) \<and>
             lora_packet s' =
               payload_fill 0 (unat (rx_len s)) (spi_miso s) (spi_count s + 5) (lora_packet s))"
proof (cases "crc_error s")
  case True
  then have "crc_error (emit [DigitalRead dio0 1] s)" by (simp add: crc_error_def)
  then show ?thesis using True by (simp add: poll_crc_error)
next
  case False
  define body where "body = uplink_json (word_of_int (sec * 1000000 + usec)) (freq s) (sf s)
      (decodeSnr (rx_snr_raw s)) (decodeRssi (rx_rssi_raw s) (is_sx1272 s)) (rx_len s)"
  define hd12 where "hd12 = [PROTOCOL_VERSION, word_of_int r1, word_of_int r2, PKT_PUSH_DATA,
       hwaddr s 0, hwaddr s 1, hwaddr s 2, 0xFF, 0xFF,
       hwaddr s 3, hwaddr s 4, hwaddr s 5]"
  let ?r = "compose TX_BUFF_SIZE (rx_cmds sec usec s) (put_header buf (hwaddr s) r1 r2, 12)"
  define B where "B = (fst ?r)(snd ?r := 0)"
  define N where "N = snd ?r"
  have t: "cmds_text (rx_cmds sec usec s) = bytes_of body"
    unfolding body_def by (rule rx_cmds_text)
  have h: "wire_header (hwaddr s) r1 r2 = hd12"
    by (simp add: wire_header_def gateway_id_def hd12_def)
  have n: "N = 12 + length body"
    unfolding N_def using uplink_frame_complete(1) [of sec usec s buf r1 r2]
    by (simp only: t length_bytes_of)
  have lt: "N < TX_BUFF_SIZE" unfolding N_def by (rule uplink_frame_complete(2))
  have rg: "region B 0 N = hd12 @ bytes_of body"
    unfolding B_def N_def using uplink_frame_complete(3) [of sec usec s buf r1 r2]
    by (simp only: t h)
  have z: "B N = 0" by (simp add: B_def N_def)
  have p: "receiveDraginoPacket 1 r1 r2 sec usec buf s =
      (0, Some (B, N), (after_reads s)\<lparr>lora_packet_length := uint (rx_len s)\<rparr>)"
    unfolding B_def N_def using False by (rule poll_frame)
  have st: "cp_nb_rx_rcv (after_reads s) = cp_nb_rx_rcv s + 1"
    "cp_nb_rx_ok (after_reads s) = cp_nb_rx_ok s + 1"
    "receivedbytes (after_reads s) = rx_len s"
    "lora_snr (after_reads s) = decodeSnr (rx_snr_raw s)"
    "lora_packet (after_reads s) =
       payload_fill 0 (unat (rx_len s)) (spi_miso s) (spi_count s + 5) (lora_packet s)"
    using False by simp_all
  show ?thesis
    unfolding p body_def [symmetric] hd12_def [symmetric]
    using False st n lt rg z by (simp add: Let_def)
qed

theorem poll_counts_witness:
  \<open>crc_error (boot_state (\<lambda>n. 0x20) (\<lambda>i. 0)) \<and>
   receiveDraginoPacket 1 0 0 0 0 (\<lambda>i. 0) (boot_state (\<lambda>n. 0x20) (\<lambda>i. 0)) =
     (1, None, snd (snd (receiveDraginoPacket 1 0 0 0 0 (\<lambda>i. 0)
                           (boot_state (\<lambda>n. 0x20) (\<lambda>i. 0))))) \<and>
   cp_nb_rx_rcv (snd (snd (receiveDraginoPacket 1 0 0 0 0 (\<lambda>i. 0)
                             (boot_state (\<lambda>n. 0x20) (\<lambda>i. 0))))) = 1 \<and>
   cp_nb_rx_ok (snd (snd (receiveDraginoPacket 1 0 0 0 0 (\<lambda>i. 0)
                            (boot_state (\<lambda>n. 0x20) (\<lambda>i. 0))))) = 0 \<and>
   \<not> crc_error (boot_state (\<lambda>n. 0) (\<lambda>i. 0)) \<and>
   fst (receiveDraginoPacket 1 0 0 0 0 (\<lambda>i. 0) (boot_state (\<lambda>n. 0) (\<lambda>i. 0))) = 0 \<and>
   cp_nb_rx_rcv (snd (snd (receiveDraginoPacket 1 0 0 0 0 (\<lambda>i. 0)
                             (boot_state (\<lambda>n. 0) (\<lambda>i. 0))))) = 1 \<and>
   cp_nb_rx_ok (snd (snd (receiveDraginoPacket 1 0 0 0 0 (\<lambda>i. 0)
                            (boot_state (\<lambda>n. 0) (\<lambda>i. 0))))) = 1 \<and>
   (\<exists>b. fst (snd (receiveDraginoPacket 1 0 0 0 0 (\<lambda>i. 0) (boot_state (\<lambda>n. 0) (\<lambda>i. 0)))) =
          Some (b, 164) \<and>
        region b 0 164 =
          [1, 0, 0, 0, 0, 0, 0, 0xFF, 0xFF, 0, 0, 0] @
          bytes_of
            (''{"rxpk":[{"tmst":0,"chan":0,"rfch":0,"freq":865.200000,"stat":1'' @
             '',"modu":"LORA","datr":"SF12BW125","codr":"4/5","lsnr":0,"rssi":-139'' @
             '',"size":0,"data":""}]}'') \<and>
        b 164 = 0)\<close>
proof -
  let ?e = "boot_state (\<lambda>n. 0x20) (\<lambda>i. 0)"
  let ?s = "boot_state (\<lambda>n. 0) (\<lambda>i. 0)"
  have c: "crc_error ?e" "\<not> crc_error ?s"
    by (simp_all add: crc_error_def boot_state_def)
  have z: "cp_nb_rx_rcv (boot_state f (\<lambda>i. 0)) = 0" "cp_nb_rx_ok (boot_state f (\<lambda>i. 0)) = 0"
    for f by (simp_all add: boot_state_def)
  have v: "rx_len ?s = 0" "rx_snr_raw ?s = 0" "rx_rssi_raw ?s = 0" "freq ?s = 865200000"
    "sf ?s = 12" "is_sx1272 ?s" "hwaddr ?s = (\<lambda>i. 0)"
    by (simp_all add: rx_len_def rx_snr_raw_def rx_rssi_raw_def boot_state_def SF12_def)
  have j: \<open>uplink_json 0 865200000 12 (decodeSnr 0) (decodeRssi 0 True) 0 =
      ''{"rxpk":[{"tmst":0,"chan":0,"rfch":0,"freq":865.200000,"stat":1'' @
      '',"modu":"LORA","datr":"SF12BW125","codr":"4/5","lsnr":0,"rssi":-139'' @
      '',"size":0,"data":""}]}''\<close>
    by (simp add: uplink_json_def sf_text_def fmt_freq_def fmt_d_def dec.simps decodeSnr_def
        decodeRssi_def rssicorr_def)
  note e = poll_counts [where ?r1.0 = 0 and ?r2.0 = 0 and sec = 0 and usec = 0
      and buf = "\<lambda>i. 0" and s = ?e]
  note g = poll_counts [where ?r1.0 = 0 and ?r2.0 = 0 and sec = 0 and usec = 0
      and buf = "\<lambda>i. 0" and s = ?s]
  have 1: "receiveDraginoPacket 1 0 0 0 0 (\<lambda>i. 0) ?e =
      (1, None, snd (snd (receiveDraginoPacket 1 0 0 0 0 (\<lambda>i. 0) ?e)))"
    and 2: "cp_nb_rx_rcv (snd (snd (receiveDraginoPacket 1 0 0 0 0 (\<lambda>i. 0) ?e))) = 1"
    and 3: "cp_nb_rx_ok (snd (snd (receiveDraginoPacket 1 0 0 0 0 (\<lambda>i. 0) ?e))) = 0"
    using e c(1) by (simp_all add: split_def z prod_eq_iff)
  have 4: "fst (receiveDraginoPacket 1 0 0 0 0 (\<lambda>i. 0) ?s) = 0"
    and 5: "cp_nb_rx_rcv (snd (snd (receiveDraginoPacket 1 0 0 0 0 (\<lambda>i. 0) ?s))) = 1"
    and 6: "cp_nb_rx_ok (snd (snd (receiveDraginoPacket 1 0 0 0 0 (\<lambda>i. 0) ?s))) = 1"
    using g c(2) by (simp_all add: split_def z)
  have 7: \<open>\<exists>b. fst (snd (receiveDraginoPacket 1 0 0 0 0 (\<lambda>i. 0) ?s)) = Some (b, 164) \<and>
        region b 0 164 =
          [1, 0, 0, 0, 0, 0, 0, 0xFF, 0xFF, 0, 0, 0] @
          bytes_of
            (''{"rxpk":[{"tmst":0,"chan":0,"rfch":0,"freq":865.200000,"stat":1'' @
             '',"modu":"LORA","datr":"SF12BW125","codr":"4/5","lsnr":0,"rssi":-139'' @
             '',"size":0,"data":""}]}'') \<and>
        b 164 = 0\<close>
    using g c(2)
    by (simp add: split_def Let_def v j PROTOCOL_VERSION_def PKT_PUSH_DATA_def) blast
  show ?thesis using c 1 2 3 4 5 6 7 by blast
qed

text \<open>A poll that finds the line low changes no counter and composes no frame.\<close>

lemma poll_idle_counts:
  assumes "level \<noteq> 1"
  shows "receiveDraginoPacket level r1 r2 sec usec buf s =
           (1, None, emit [DigitalRead dio0 level] s)"
    and "cp_nb_rx_rcv (snd (snd (receiveDraginoPacket level r1 r2 sec usec buf s))) =
           cp_nb_rx_rcv s"
    and "cp_nb_rx_ok (snd (snd (receiveDraginoPacket level r1 r2 sec usec buf s))) =
           cp_nb_rx_ok s"
  using assms by (simp_all add: poll_idle)

subsection \<open>The gateway identity in the header\<close>

text \<open>
  Claim C6: in every frame composed, uplink or status, the bytes 4 to 11 are the first
  three bytes of the hardware address, two bytes 0xFF, and its last three bytes; for the
  address 12 34 56 78 9A BC they are 12 34 56 FF FF 78 9A BC.
\<close>

theorem header_identity:
  "(\<forall>b n. fst (snd (receiveDraginoPacket level r1 r2 sec usec buf s)) = Some (b, n) \<longrightarrow>
      region b 4 12 = [hwaddr s 0, hwaddr s 1, hwaddr s 2, 0xFF, 0xFF,
                       hwaddr s 3, hwaddr s 4, hwaddr s 5]) \<and>
   region (status_report (snd (sendstat q1 q2 ts s))) 4 12 =
     [hwaddr s 0, hwaddr s 1, hwaddr s 2, 0xFF, 0xFF, hwaddr s 3, hwaddr s 4, hwaddr s 5] \<and>
   gateway_id (\<lambda>i. [0x12, 0x34, 0x56, 0x78, 0x9A, 0xBC] ! i) =
     [0x12, 0x34, 0x56, 0xFF, 0xFF, 0x78, 0x9A, 0xBC]"
proof -
  have up: "region b 4 12 = gateway_id (hwaddr s)"
    if f: "fst (snd (receiveDraginoPacket level r1 r2 sec usec buf s)) = Some (b, n)" for b n
  proof (cases "level = 1 \<and> \<not> crc_error s")
    case True
    then show ?thesis using f by (auto simp add: poll_frame poll_frame_header)
  next
    case False
    then have "fst (snd (receiveDraginoPacket level r1 r2 sec usec buf s)) = None"
      by (cases "level = 1") (simp_all add: poll_idle poll_crc_error)
    then show ?thesis using f by simp
  qed
  show ?thesis using up sendstat_header [of q1 q2 ts s]
    by (simp add: gateway_id_def)
qed

theorem header_identity_witness:
  "\<exists>b n. fst (snd (receiveDraginoPacket 1 0 0 0 0 (\<lambda>i. 0)
            (boot_state (\<lambda>n. 0) (\<lambda>i. [0x12, 0x34, 0x56, 0x78, 0x9A, 0xBC] ! i)))) = Some (b, n) \<and>
     region b 4 12 = [0x12, 0x34, 0x56, 0xFF, 0xFF, 0x78, 0x9A, 0xBC]"
proof -
  let ?s = "boot_state (\<lambda>n. 0) (\<lambda>i. [0x12, 0x34, 0x56, 0x78, 0x9A, 0xBC] ! i)"
  have c: "\<not> crc_error ?s" by (simp add: crc_error_def boot_state_def)
  have h: "hwaddr ?s = (\<lambda>i. [0x12, 0x34, 0x56, 0x78, 0x9A, 0xBC] ! i)"
    by (simp add: boot_state_def)
  obtain b n where f: "fst (snd (receiveDraginoPacket 1 0 0 0 0 (\<lambda>i. 0) ?s)) = Some (b, n)"
    using c by (simp add: poll_frame)
  then have "region b 4 12 = [hwaddr ?s 0, hwaddr ?s 1, hwaddr ?s 2, 0xFF, 0xFF,
                       hwaddr ?s 3, hwaddr ?s 4, hwaddr ?s 5]"
    using header_identity [where level = 1 and ?r1.0 = 0 and ?r2.0 = 0 and sec = 0
        and usec = 0 and buf = "\<lambda>i. 0" and s = ?s]
    by blast
  then have "region b 4 12 = [0x12, 0x34, 0x56, 0xFF, 0xFF, 0x78, 0x9A, 0xBC]"
    by (simp add: h)
  then show ?thesis using f by blast
qed

subsection \<open>Received signal strength\<close>

text \<open>
  Claim C7: the decoded RSSI is the raw register byte minus 139 when the chip was
  detected as SX1272 and minus 157 when it was detected as SX1276; this is the value the
  uplink frame of a poll is composed with, from the last read of the register 0x1A.
\<close>

theorem rssi_offset:
  "decodeRssi raw True = uint raw - 139 \<and> decodeRssi raw False = uint raw - 157 \<and>
   (\<not> crc_error s \<longrightarrow>
      fst (snd (receiveDraginoPacket 1 r1 r2 sec usec buf s)) =
        Some (let r = compose TX_BUFF_SIZE
                        (uplink_cmds (word_of_int (sec * 1000000 + usec)) (freq s) (sf s)
                           (decodeSnr (rx_snr_raw s))
                           (uint (rx_rssi_raw s) - (if is_sx1272 s then 139 else 157))
                           (rx_len s))
                        (put_header buf (hwaddr s) r1 r2, 12)
              in ((fst r)(snd r := 0), snd r)))"
  by (simp add: decodeRssi_def rssicorr_def poll_frame rx_cmds_def Let_def)

theorem rssi_offset_witness:
  "\<not> crc_error (boot_state (\<lambda>n. 0) (\<lambda>i. 0)) \<and>
   uint (rx_rssi_raw (boot_state (\<lambda>n. 0) (\<lambda>i. 0))) -
     (if is_sx1272 (boot_state (\<lambda>n. 0) (\<lambda>i. 0)) then 139 else 157) = - 139 \<and>
   (\<exists>f. fst (snd (receiveDraginoPacket 1 0 0 0 0 (\<lambda>i. 0) (boot_state (\<lambda>n. 0) (\<lambda>i. 0)))) =
          Some f)"
proof -
  have c: "\<not> crc_error (boot_state (\<lambda>n. 0) (\<lambda>i. 0))"
    by (simp add: crc_error_def boot_state_def)
  have v: "uint (rx_rssi_raw (boot_state (\<lambda>n. 0) (\<lambda>i. 0))) -
     (if is_sx1272 (boot_state (\<lambda>n. 0) (\<lambda>i. 0)) then 139 else 157) = - 139"
    by (simp add: rx_rssi_raw_def boot_state_def)
  show ?thesis
    using c v rssi_offset [where s = "boot_state (\<lambda>n. 0) (\<lambda>i. 0)" and ?r1.0 = 0
        and ?r2.0 = 0 and sec = 0 and usec = 0 and buf = "\<lambda>i. 0"]
    by simp
qed

subsection \<open>The forwarded counter\<close>

lemma sendstat_stat_text:
  "sendstat r1 r2 ts s =
     (let r = compose STATUS_SIZE [Snprintf (stat_text ts s)]
                (put_header (status_report s) (hwaddr s) r1 r2, 12)
      in (snd r, s\<lparr>status_report := (fst r)(snd r := 0)\<rparr>))"
  by (simp add: sendstat_def stat_text_def Let_def split_def)

lemma poll_forwarded:
  "cp_up_pkt_fwd (snd (snd (receiveDraginoPacket level r1 r2 sec usec buf s))) =
     cp_up_pkt_fwd s"
proof (cases "level = 1")
  case False
  then show ?thesis by (simp add: poll_idle)
next
  case True
  show ?thesis
  proof (cases "crc_error s")
    case True
    then show ?thesis using \<open>level = 1\<close> by (simp add: poll_crc_error)
  next
    case False
    then show ?thesis using \<open>level = 1\<close> by (simp add: poll_frame)
  qed
qed

lemma setup_forwarded:
  "cp_up_pkt_fwd (snd (setupDraginoLoRa h a m c p s)) = cp_up_pkt_fwd s"
proof (cases "spi_miso s (spi_count s) = 0x22")
  case True
  then show ?thesis by (simp add: setup_first)
next
  case False
  then show ?thesis
    by (cases "spi_miso s (Suc (spi_count s)) = 0x12")
      (simp_all add: setup_second setup_none)
qed

lemma main_round_forwarded:
  "cp_up_pkt_fwd (snd (main_round e (lasttime, s))) =
     (if 30 \<le> (word_of_int (now_tv_sec e) :: u32) - lasttime then 0 else cp_up_pkt_fwd s)"
  by (simp add: main_round_def split_def Let_def poll_forwarded)

lemma main_loop_forwarded:
  "cp_up_pkt_fwd (snd st) = 0 \<Longrightarrow> cp_up_pkt_fwd (snd (main_loop ticks st)) = 0"
proof (induction ticks arbitrary: st)
  case Nil
  then show ?case by (simp add: main_loop_def)
next
  case (Cons e ticks)
  obtain lasttime s where st: "st = (lasttime, s)" by (cases st)
  have "cp_up_pkt_fwd (snd (main_round e st)) = 0"
    using Cons.prems by (simp add: st main_round_forwarded)
  then have "cp_up_pkt_fwd (snd (main_loop ticks (main_round e st))) = 0"
    by (rule Cons.IH)
  then show ?case by (simp add: main_loop_def)
qed

lemma stat_json_rxfw_zero:
  \<open>\<exists>pre post. stat_json ts la lo al rxnb rxok 0 = pre @ '',"rxfw":0,"ackr":0.0'' @ post\<close>
proof -
  have \<open>stat_json ts la lo al rxnb rxok 0 =
      (''{"stat":{"time":"'' @ ts @ ''","lati":'' @ la @ '',"long":'' @ lo @
       '',"alti":'' @ fmt_d (sint al) @ '',"rxnb":'' @ fmt_u (unat rxnb) @
       '',"rxok":'' @ fmt_u (unat rxok)) @ '',"rxfw":0,"ackr":0.0'' @
      ('',"dwnb":0,"txnb":0,"pfrm":"'' @ platform @ ''","mail":"'' @ email @
       ''","desc":"'' @ description @ ''"}}'')\<close>
    by (simp add: stat_json_def fmt_u_0)
  then show ?thesis by blast
qed

text \<open>
  Claim C10: the set-up, a poll and the status encoder leave the forwarded counter as
  it is, and the loop only sets it to zero; so, starting from zero, it is zero after any
  number of rounds of the loop, also after the poll of the next round, which is the state
  the status encoder reads it in, and every status text then carries \<open>"rxfw":0\<close>.
\<close>

theorem forwarded_counter_zero:
  "cp_up_pkt_fwd (snd (setupDraginoLoRa h a m c p s)) = cp_up_pkt_fwd s \<and>
   cp_up_pkt_fwd (snd (snd (receiveDraginoPacket level r1 r2 sec usec buf s))) =
     cp_up_pkt_fwd s \<and>
   cp_up_pkt_fwd (snd (sendstat q1 q2 ts s)) = cp_up_pkt_fwd s \<and>
   (cp_up_pkt_fwd s = 0 \<longrightarrow>
      cp_up_pkt_fwd (snd (main_loop ticks (lasttime, s))) = 0 \<and>
      cp_up_pkt_fwd (snd (snd (receiveDraginoPacket level r1 r2 sec usec buf
                                 (snd (main_loop ticks (lasttime, s)))))) = 0 \<and>
      (\<exists>pre post.
         stat_text ts (snd (snd (receiveDraginoPacket level r1 r2 sec usec buf
                                   (snd (main_loop ticks (lasttime, s)))))) =
           pre @ '',\"rxfw\":0,\"ackr\":0.0'' @ post))"
proof -
  have z: "cp_up_pkt_fwd (snd (snd (receiveDraginoPacket level r1 r2 sec usec buf
                                 (snd (main_loop ticks (lasttime, s)))))) = 0"
    if "cp_up_pkt_fwd s = 0"
    using that main_loop_forwarded [of "(lasttime, s)" ticks] by (simp add: poll_forwarded)
  have t: "\<exists>pre post.
         stat_text ts (snd (snd (receiveDraginoPacket level r1 r2 sec usec buf
                                   (snd (main_loop ticks (lasttime, s)))))) =
           pre @ '',\"rxfw\":0,\"ackr\":0.0'' @ post"
    if "cp_up_pkt_fwd s = 0"
    unfolding stat_text_def by (simp only: z [OF that] stat_json_rxfw_zero)
  show ?thesis
    using z t main_loop_forwarded [of "(lasttime, s)" ticks]
    by (simp add: setup_forwarded poll_forwarded)
qed

theorem forwarded_counter_zero_witness:
  "cp_up_pkt_fwd (boot_state (\<lambda>n. 0) (\<lambda>i. 0)) = 0 \<and>
   cp_up_pkt_fwd
     (snd (main_loop
        [\<lparr>dio0_level = 1, rx_rand1 = 7, rx_rand2 = 9, rx_tv_sec = 100, rx_tv_usec = 5,
          rx_buff_up = (\<lambda>i. 0), now_tv_sec = 100, stat_rand1 = 3, stat_rand2 = 4,
          stat_time = ''2026-11-01 12:00:00 GMT''\<rparr>,
         \<lparr>dio0_level = 0, rx_rand1 = 0, rx_rand2 = 0, rx_tv_sec = 101, rx_tv_usec = 0,
          rx_buff_up = (\<lambda>i. 0), now_tv_sec = 101, stat_rand1 = 0, stat_rand2 = 0,
          stat_time = ''2026-11-01 12:00:01 GMT''\<rparr>]
        (0, boot_state (\<lambda>n. 0) (\<lambda>i. 0)))) = 0"
proof -
  have z: "cp_up_pkt_fwd (boot_state (\<lambda>n. 0) (\<lambda>i. 0)) = 0"
    by (simp add: boot_state_def)
  show ?thesis
    using z forwarded_counter_zero [where s = "boot_state (\<lambda>n. 0) (\<lambda>i. 0)" and lasttime = 0]
    by blast
qed

subsection \<open>Size of the composed frames\<close>

text \<open>
  The model of \<^verbatim>\<open>snprintf\<close> does cut a text that does not fit, without any sign of
  failure, as the library function does: with room for four bytes, three are written
  and a zero byte, and the index moves on by the whole length.
\<close>

lemma snprintf_cuts_silently:
  "region (fst (compose 16 [Snprintf ''abcdefgh''] (b, 12))) 12 16 = bytes_of ''abc'' @ [0] \<and>
   snd (compose 16 [Snprintf ''abcdefgh''] (b, 12)) = 20"
  by (simp add: compose_def Let_def size_t_def region_def put_bytes_def bytes_of_def
      byte_of_char_def upt_rec)

text \<open>
  Claim C2: no input makes either encoder cut its output. The body of an uplink frame
  has at most 167 bytes, whatever the transceiver answers, and the buffer of 2048 bytes
  holds the header, the whole body and the final zero byte. The body of a status frame
  has at most 305 bytes when the time text fits its 24-byte array and the two
  coordinates are printed on at most 46 characters each, as \<^verbatim>\<open>%.5f\<close> prints any
  \<^verbatim>\<open>float\<close>, and its buffer of 1024 bytes holds the header, the whole body and the final
  zero byte. So a body beyond the size budget does not arise, and the code has no path
  that reports one.
\<close>

theorem encoders_never_truncate:
  "(\<not> crc_error s \<longrightarrow>
      (\<exists>b n. fst (snd (receiveDraginoPacket 1 r1 r2 sec usec buf s)) = Some (b, n) \<and>
         n = 12 + length (cmds_text (rx_cmds sec usec s)) \<and>
         length (cmds_text (rx_cmds sec usec s)) \<le> 167 \<and> n < TX_BUFF_SIZE \<and>
         region b 0 n = wire_header (hwaddr s) r1 r2 @ cmds_text (rx_cmds sec usec s) \<and>
         b n = 0)) \<and>
   (length ts \<le> 23 \<and> length (lat_fmt s) \<le> 46 \<and> length (lon_fmt s) \<le> 46 \<longrightarrow>
      (case sendstat q1 q2 ts s of
         (n, s') \<Rightarrow>
           n = 12 + length (stat_text ts s) \<and> length (stat_text ts s) \<le> 305 \<and>
           n < STATUS_SIZE \<and>
           region (status_report s') 0 n =
             wire_header (hwaddr s) q1 q2 @ bytes_of (stat_text ts s) \<and>
           status_report s' n = 0))"
proof -
  let ?r = "compose TX_BUFF_SIZE (rx_cmds sec usec s) (put_header buf (hwaddr s) r1 r2, 12)"
  have up: "\<exists>b n. fst (snd (receiveDraginoPacket 1 r1 r2 sec usec buf s)) = Some (b, n) \<and>
         n = 12 + length (cmds_text (rx_cmds sec usec s)) \<and>
         length (cmds_text (rx_cmds sec usec s)) \<le> 167 \<and> n < TX_BUFF_SIZE \<and>
         region b 0 n = wire_header (hwaddr s) r1 r2 @ cmds_text (rx_cmds sec usec s) \<and>
         b n = 0"
    if c: "\<not> crc_error s"
  proof -
    have f: "fst (snd (receiveDraginoPacket 1 r1 r2 sec usec buf s)) =
        Some ((fst ?r)(snd ?r := 0), snd ?r)"
      using c by (simp add: poll_frame)
    have "snd ?r = 12 + length (cmds_text (rx_cmds sec usec s))"
      and "snd ?r < TX_BUFF_SIZE"
      and "region ((fst ?r)(snd ?r := 0)) 0 (snd ?r) =
             wire_header (hwaddr s) r1 r2 @ cmds_text (rx_cmds sec usec s)"
      by (rule uplink_frame_complete)+
    moreover have "((fst ?r)(snd ?r := 0)) (snd ?r) = 0" by simp
    moreover have "length (cmds_text (rx_cmds sec usec s)) \<le> 167" by (rule rx_cmds_length)
    ultimately show ?thesis using f by blast
  qed
  have st: "case sendstat q1 q2 ts s of
         (n, s') \<Rightarrow>
           n = 12 + length (stat_text ts s) \<and> length (stat_text ts s) \<le> 305 \<and>
           n < STATUS_SIZE \<and>
           region (status_report s') 0 n =
             wire_header (hwaddr s) q1 q2 @ bytes_of (stat_text ts s) \<and>
           status_report s' n = 0"
    if h: "length ts \<le> 23" "length (lat_fmt s) \<le> 46" "length (lon_fmt s) \<le> 46"
  proof -
    have l: "length (stat_text ts s) \<le> 305"
      unfolding stat_text_def using h by (rule stat_json_length)
    show ?thesis
      using sendstat_complete [OF h, of q1 q2] l
      by (simp add: split_def stat_text_def)
  qed
  show ?thesis
  proof (intro conjI impI)
    assume "\<not> crc_error s"
    then show "\<exists>b n. fst (snd (receiveDraginoPacket 1 r1 r2 sec usec buf s)) = Some (b, n) \<and>
         n = 12 + length (cmds_text (rx_cmds sec usec s)) \<and>
         length (cmds_text (rx_cmds sec usec s)) \<le> 167 \<and> n < TX_BUFF_SIZE \<and>
         region b 0 n = wire_header (hwaddr s) r1 r2 @ cmds_text (rx_cmds sec usec s) \<and>
         b n = 0"
      by (rule up)
  next
    assume "length ts \<le> 23 \<and> length (lat_fmt s) \<le> 46 \<and> length (lon_fmt s) \<le> 46"
    then have "length ts \<le> 23" "length (lat_fmt s) \<le> 46" "length (lon_fmt s) \<le> 46"
      by simp_all
    then show "case sendstat q1 q2 ts s of
         (n, s') \<Rightarrow>
           n = 12 + length (stat_text ts s) \<and> length (stat_text ts s) \<le> 305 \<and>
           n < STATUS_SIZE \<and>
           region (status_report s') 0 n =
             wire_header (hwaddr s) q1 q2 @ bytes_of (stat_text ts s) \<and>
           status_report s' n = 0"
      by (rule st)
  qed
qed

theorem encoders_never_truncate_witness:
  "\<not> crc_error (boot_state (\<lambda>n. 0) (\<lambda>i. 0)) \<and>
   (\<exists>b n. fst (snd (receiveDraginoPacket 1 0 0 0 0 (\<lambda>i. 0) (boot_state (\<lambda>n. 0) (\<lambda>i. 0)))) =
            Some (b, n) \<and> n < TX_BUFF_SIZE \<and> b n = 0) \<and>
   length ''2026-11-01 12:00:00 GMT'' \<le> 23 \<and>
   length (lat_fmt (boot_state (\<lambda>n. 0) (\<lambda>i. 0))) \<le> 46 \<and>
   length (lon_fmt (boot_state (\<lambda>n. 0) (\<lambda>i. 0))) \<le> 46 \<and>
   fst (sendstat 0 0 ''2026-11-01 12:00:00 GMT'' (boot_state (\<lambda>n. 0) (\<lambda>i. 0))) < STATUS_SIZE"
proof -
  let ?s = "boot_state (\<lambda>n. 0) (\<lambda>i. 0)"
  have c: "\<not> crc_error ?s" by (simp add: crc_error_def boot_state_def)
  have h: "length ''2026-11-01 12:00:00 GMT'' \<le> 23" "length (lat_fmt ?s) \<le> 46"
    "length (lon_fmt ?s) \<le> 46" by (simp_all add: boot_state_def)
  note th = encoders_never_truncate [where s = ?s and ?r1.0 = 0 and ?r2.0 = 0 and sec = 0
      and usec = 0 and buf = "\<lambda>i. 0" and ts = "''2026-11-01 12:00:00 GMT''"
      and ?q1.0 = 0 and ?q2.0 = 0]
  have 1: "\<exists>b n. fst (snd (receiveDraginoPacket 1 0 0 0 0 (\<lambda>i. 0) ?s)) = Some (b, n) \<and>
      n < TX_BUFF_SIZE \<and> b n = 0"
    using th c by blast
  have 2: "fst (sendstat 0 0 ''2026-11-01 12:00:00 GMT'' ?s) < STATUS_SIZE"
    using th h by (simp add: split_def)
  show ?thesis using c h 1 2 by blast
qed

subsection \<open>Concrete values\<close>

text \<open>The formatting on concrete values: the frequency with its six decimals, and
  the whole body of an uplink frame.\<close>

lemma fmt_freq_examples:
  "fmt_freq 865200000 = ''865.200000''" "fmt_freq 868000001 = ''868.000001''"
proof -
  have r: "replicate 5 c = [c, c, c, c, c]" for c :: char
    by (simp add: numeral_eq_Suc)
  show "fmt_freq 865200000 = ''865.200000''" "fmt_freq 868000001 = ''868.000001''"
    by (simp_all add: fmt_freq_def dec.simps r)
qed

lemma uplink_body_example:
  \<open>cmds_text (uplink_cmds 100000005 865200000 SF12 (- 31) (- 90) 2) =
     bytes_of
       (''{"rxpk":[{"tmst":100000005,"chan":0,"rfch":0,"freq":865.200000,"stat":1'' @
        '',"modu":"LORA","datr":"SF12BW125","codr":"4/5","lsnr":-31,"rssi":-90'' @
        '',"size":2,"data":""}]}'')\<close>
  by (simp add: cmds_text_def uplink_cmds_def datr_cmd_def SF7_def SF8_def SF9_def SF10_def
      SF11_def SF12_def fmt_u_def fmt_d_def fmt_freq_def dec.simps bytes_of_def
      byte_of_char_def)

end
